theory Spec2Isabelle
  imports Main "HOL-Library.AList"
begin

unbundle bit_operations_syntax

section \<open>JavaScript values\<close>

text \<open>
  The values the server handles are the results of \<^verbatim>\<open>JSON.parse\<close>: the body of a
  webhook request and the pages returned by the record store. A JavaScript expression
  may also be \<^verbatim>\<open>undefined\<close>, which is not a JSON value: an expression has the type
  \<open>js\<close>, where \<open>None\<close> is \<^verbatim>\<open>undefined\<close>.

  Strings are lists of code units below 256 (the Latin-1 range); this is exactly what
  Node gives for a request header. Numbers are the integers that a double holds
  exactly. An object is the list of its properties in enumeration order, with distinct
  names; reading a property takes the first binding.
\<close>

datatype json =
    JNull
  | JBool bool
  | JNum int
  | JStr string
  | JArr "json list"
  | JObj "(string \<times> json) list"

type_synonym js = "json option"

datatype error =
    TypeError
  | RangeError
  | Rejected js

text \<open>Truthiness, as \<^verbatim>\<open>||\<close>, \<^verbatim>\<open>&&\<close>, \<^verbatim>\<open>?:\<close> and \<^verbatim>\<open>while\<close> test it.\<close>

fun truthy :: "js \<Rightarrow> bool" where
  "truthy None = False"
| "truthy (Some JNull) = False"
| "truthy (Some (JBool b)) = b"
| "truthy (Some (JNum n)) = (n \<noteq> 0)"
| "truthy (Some (JStr s)) = (s \<noteq> [])"
| "truthy (Some (JArr xs)) = True"
| "truthy (Some (JObj kvs)) = True"

text \<open>\<^verbatim>\<open>a || b\<close> where \<open>b\<close> is a value: the result is never \<^verbatim>\<open>undefined\<close>.\<close>

fun or_else :: "js \<Rightarrow> json \<Rightarrow> json" where
  "or_else None b = b"
| "or_else (Some v) b = (if truthy (Some v) then v else b)"

text \<open>
  \<open>member v k\<close> is \<^verbatim>\<open>v[k]\<close> for a value that is neither \<^verbatim>\<open>null\<close> nor
  \<^verbatim>\<open>undefined\<close> and a property name \<open>k\<close> that no built-in prototype defines (every name
  the server reads is such a name): only an object has own properties of that kind.
\<close>

fun member :: "json \<Rightarrow> string \<Rightarrow> js" where
  "member (JObj kvs) k = map_of kvs k"
| "member _ k = None"

text \<open>\<^verbatim>\<open>v.k\<close> throws a TypeError on \<^verbatim>\<open>null\<close> and \<^verbatim>\<open>undefined\<close>; \<^verbatim>\<open>v?.k\<close> gives
  \<^verbatim>\<open>undefined\<close> there.\<close>

fun get_prop :: "js \<Rightarrow> string \<Rightarrow> error + js" where
  "get_prop None k = Inl TypeError"
| "get_prop (Some JNull) k = Inl TypeError"
| "get_prop (Some v) k = Inr (member v k)"

fun opt_prop :: "js \<Rightarrow> string \<Rightarrow> js" where
  "opt_prop None k = None"
| "opt_prop (Some JNull) k = None"
| "opt_prop (Some v) k = member v k"

text \<open>\<^verbatim>\<open>v[0]\<close> for a truthy value: the first element of an array, the first code unit
  of a string, the property \<^verbatim>\<open>"0"\<close> of an object.\<close>

fun index0 :: "json \<Rightarrow> js" where
  "index0 (JArr []) = None"
| "index0 (JArr (x # xs)) = Some x"
| "index0 (JStr []) = None"
| "index0 (JStr (c # cs)) = Some (JStr [c])"
| "index0 (JObj kvs) = map_of kvs ''0''"
| "index0 _ = None"

text \<open>\<^verbatim>\<open>a ?? b\<close> with \<^verbatim>\<open>b = null\<close>.\<close>

fun nullish_null :: "js \<Rightarrow> json" where
  "nullish_null None = JNull"
| "nullish_null (Some v) = v"

subsection \<open>Strings\<close>

text \<open>White space and line terminators of \<^verbatim>\<open>String.prototype.trim\<close> among the code
  units below 256: TAB, LF, VT, FF, CR, SP and NBSP.\<close>

definition is_space :: "char \<Rightarrow> bool" where
  "is_space c = (of_char c \<in> {9, 10, 11, 12, 13, 32, 160 :: nat})"

definition trim :: "string \<Rightarrow> string" where
  "trim s = rev (dropWhile is_space (rev (dropWhile is_space s)))"

text \<open>The decimal digits of a number, as \<^verbatim>\<open>String(n)\<close> gives them for an integer.\<close>

definition digit_char :: "nat \<Rightarrow> char" where
  "digit_char n = ''0123456789'' ! (n mod 10)"

function show_nat_aux :: "nat \<Rightarrow> string \<Rightarrow> string" where
  "show_nat_aux n acc =
     (if n < 10 then digit_char n # acc
      else show_nat_aux (n div 10) (digit_char n # acc))"
  by pat_completeness auto
termination
  by (relation "measure fst") auto

declare show_nat_aux.simps [simp del]

definition show_nat :: "nat \<Rightarrow> string" where
  "show_nat n = show_nat_aux n []"

definition show_int :: "int \<Rightarrow> string" where
  "show_int i = (if i < 0 then CHR ''-'' # show_nat (nat (- i)) else show_nat (nat i))"

text \<open>\<^verbatim>\<open>xs.join(sep)\<close> on strings.\<close>

fun join :: "string \<Rightarrow> string list \<Rightarrow> string" where
  "join sep [] = []"
| "join sep [x] = x"
| "join sep (x # y # ys) = x @ sep @ join sep (y # ys)"

text \<open>
  \<^verbatim>\<open>String(v)\<close>, the conversion \<^verbatim>\<open>Array.prototype.join\<close> applies to each element. An
  array is joined with commas, its \<^verbatim>\<open>null\<close> elements giving the empty string.
\<close>

fun to_string :: "json \<Rightarrow> string"
  and to_string_elems :: "json list \<Rightarrow> string list" where
  "to_string JNull = ''null''"
| "to_string (JBool b) = (if b then ''true'' else ''false'')"
| "to_string (JNum n) = show_int n"
| "to_string (JStr s) = s"
| "to_string (JArr xs) = join '','' (to_string_elems xs)"
| "to_string (JObj kvs) = ''[object Object]''"
| "to_string_elems [] = []"
| "to_string_elems (x # xs) =
     (case x of JNull \<Rightarrow> [] | _ \<Rightarrow> to_string x) # to_string_elems xs"

section \<open>Records of the store as items\<close>

record item =
  item_id :: js
  name :: string
  level :: json
  upper :: json
  dependency :: json
  early_start :: json
  late_start :: json
  early_finish :: json
  late_finish :: json
  item_done :: bool

text \<open>The callback of \<^verbatim>\<open>richToText\<close>: \<^verbatim>\<open>v => v.plain_text || ''\<close>.\<close>

definition fragment_text :: "json \<Rightarrow> error + json" where
  "fragment_text v =
     (case get_prop (Some v) ''plain_text'' of
        Inl e \<Rightarrow> Inl e
      | Inr t \<Rightarrow> Inr (or_else t (JStr [])))"

fun map_err :: "('a \<Rightarrow> error + 'b) \<Rightarrow> 'a list \<Rightarrow> error + 'b list" where
  "map_err f [] = Inr []"
| "map_err f (x # xs) =
     (case f x of
        Inl e \<Rightarrow> Inl e
      | Inr y \<Rightarrow> (case map_err f xs of Inl e \<Rightarrow> Inl e | Inr ys \<Rightarrow> Inr (y # ys)))"

text \<open>
  \<^verbatim>\<open>(r || []).map(v => v.plain_text || '').join('')\<close>. A truthy \<open>r\<close> that is not an
  array has no \<^verbatim>\<open>map\<close> method: the call throws.
\<close>

definition richToText :: "js \<Rightarrow> error + string" where
  "richToText r =
     (case or_else r (JArr []) of
        JArr xs \<Rightarrow>
          (case map_err fragment_text xs of
             Inl e \<Rightarrow> Inl e
           | Inr ts \<Rightarrow> Inr (concat (map to_string ts)))
      | _ \<Rightarrow> Inl TypeError)"

text \<open>\<^verbatim>\<open>prop?.date?.start || null\<close>.\<close>

definition getDate :: "js \<Rightarrow> json" where
  "getDate prop =
     or_else (opt_prop (opt_prop prop ''date'') ''start'') JNull"

text \<open>\<^verbatim>\<open>richToText(x) || null\<close>.\<close>

definition text_or_null :: "string \<Rightarrow> json" where
  "text_or_null s = (if s = [] then JNull else JStr s)"

text \<open>
  \<^verbatim>\<open>props['item name']?.title || props['Name']?.title || []\<close>: the title array of the
  record, from the primary name field or else the fallback one.
\<close>

definition title_of :: "json \<Rightarrow> json" where
  "title_of props =
     or_else (opt_prop (member props ''item name'') ''title'')
       (or_else (opt_prop (member props ''Name'') ''title'') (JArr []))"

text \<open>\<^verbatim>\<open>(title[0]?.plain_text || '').trim()\<close>: a truthy value that is not a string
  has no \<^verbatim>\<open>trim\<close> method.\<close>

definition resolved_name :: "json \<Rightarrow> error + string" where
  "resolved_name title =
     (case or_else (opt_prop (index0 title) ''plain_text'') (JStr []) of
        JStr s \<Rightarrow> Inr (trim s)
      | _ \<Rightarrow> Inl TypeError)"

definition pageToItem :: "json \<Rightarrow> error + item" where
  "pageToItem p =
     (case get_prop (Some p) ''properties'' of
        Inl e \<Rightarrow> Inl e
      | Inr pr \<Rightarrow>
          (let props = or_else pr (JObj [])
           in case resolved_name (title_of props) of
                Inl e \<Rightarrow> Inl e
              | Inr nm \<Rightarrow>
                  (case richToText (opt_prop (member props ''upper'') ''rich_text'') of
                     Inl e \<Rightarrow> Inl e
                   | Inr up \<Rightarrow>
                       (case richToText (opt_prop (member props ''dependency'') ''rich_text'') of
                          Inl e \<Rightarrow> Inl e
                        | Inr dep \<Rightarrow>
                            Inr \<lparr> item_id = member p ''id'',
                                  name = nm,
                                  level = nullish_null (opt_prop (member props ''level'') ''number''),
                                  upper = text_or_null up,
                                  dependency = text_or_null dep,
                                  early_start = getDate (member props ''early start''),
                                  late_start = getDate (member props ''late start''),
                                  early_finish = getDate (member props ''early finish''),
                                  late_finish = getDate (member props ''late finish''),
                                  item_done = (opt_prop (member props ''Done'') ''checkbox'' = Some (JBool True)) \<rparr>))))"

section \<open>Fetching all items\<close>

datatype direction = Ascending | Descending

datatype sort_key = Property string direction | Timestamp string direction

record query_args =
  database_id :: "string option"
  start_cursor :: js
  page_size :: nat
  sorts :: "sort_key list"

text \<open>
  The record store is outside the program: \<^verbatim>\<open>notion.databases.query\<close> is a parameter,
  a function from the arguments of a request to the value the promise resolves to
  (\<open>Inr\<close>) or the error it rejects with (\<open>Inl\<close>).
\<close>

type_synonym store = "query_args \<Rightarrow> error + json"

text \<open>The argument object of the query; \<open>db\<close> is \<^verbatim>\<open>DB_ID\<close>.\<close>

definition query_request :: "string option \<Rightarrow> js \<Rightarrow> query_args" where
  "query_request db cursor =
     \<lparr> database_id = db,
       start_cursor = cursor,
       page_size = 100,
       sorts = [Property ''level'' Ascending, Timestamp ''last_edited_time'' Ascending] \<rparr>"

text \<open>\<^verbatim>\<open>resp.results.map(pageToItem).filter(x => x.name)\<close>.\<close>

definition page_items :: "json \<Rightarrow> error + item list" where
  "page_items resp =
     (case get_prop (Some resp) ''results'' of
        Inl e \<Rightarrow> Inl e
      | Inr r \<Rightarrow>
          (case r of
             Some (JArr ps) \<Rightarrow>
               (case map_err pageToItem ps of
                  Inl e \<Rightarrow> Inl e
                | Inr its \<Rightarrow> Inr (filter (\<lambda>x. name x \<noteq> []) its))
           | _ \<Rightarrow> Inl TypeError))"

text \<open>\<^verbatim>\<open>resp.has_more ? resp.next_cursor : undefined\<close>, for a response that is not
  \<^verbatim>\<open>null\<close>.\<close>

definition next_cursor :: "json \<Rightarrow> js" where
  "next_cursor resp =
     (if truthy (member resp ''has_more'') then member resp ''next_cursor'' else None)"

text \<open>
  The \<^verbatim>\<open>do ... while (cursor)\<close> loop of \<^verbatim>\<open>fetchAllItems\<close>, entered with the items
  gathered so far and the cursor of the next request. The loop has no bound: a store
  that always returns a cursor keeps it running, and the result is \<open>None\<close>.
\<close>

partial_function (option) fetch_loop ::
  "store \<Rightarrow> string option \<Rightarrow> item list \<Rightarrow> js \<Rightarrow> (error + item list) option" where
  "fetch_loop query db items cursor =
     (case query (query_request db cursor) of
        Inl e \<Rightarrow> Some (Inl e)
      | Inr resp \<Rightarrow>
          (case page_items resp of
             Inl e \<Rightarrow> Some (Inl e)
           | Inr its \<Rightarrow>
               (if truthy (next_cursor resp)
                then fetch_loop query db (items @ its) (next_cursor resp)
                else Some (Inr (items @ its)))))"

definition fetchAllItems :: "store \<Rightarrow> string option \<Rightarrow> (error + item list) option" where
  "fetchAllItems query db = fetch_loop query db [] None"

subsection \<open>The items endpoint\<close>

text \<open>
  The JSON bodies of the responses: \<^verbatim>\<open>{items}\<close>,
  \<^verbatim>\<open>{error: 'notion query failed', detail: e?.message}\<close> for the error \<open>e\<close>,
  \<^verbatim>\<open>{ok: true, step: 'verification'}\<close>, \<^verbatim>\<open>{ok: false, reason: 'signature_mismatch'}\<close>,
  \<^verbatim>\<open>{ok: true}\<close> and \<^verbatim>\<open>{ok: false}\<close>.
\<close>

datatype payload =
    Items "item list"
  | QueryFailed error
  | OkVerification
  | SignatureMismatch
  | Ok
  | NotOk

record response =
  status :: nat
  payload :: payload

text \<open>
  What the server prints on the console: the three lines of \<^verbatim>\<open>console.log\<close> of the
  verification step (a heading, the token, a hint for the operator), the
  \<^verbatim>\<open>console.warn\<close> of a signature mismatch, and \<^verbatim>\<open>console.error(e)\<close>.
\<close>

datatype log_entry =
    TokenReceived
  | TokenValue json
  | TokenHint
  | SignatureWarning
  | ErrorLogged error

text \<open>The handler of \<^verbatim>\<open>GET /api/items\<close>: the response and what it prints.\<close>

definition api_items :: "store \<Rightarrow> string option \<Rightarrow> (response \<times> log_entry list) option" where
  "api_items query db =
     (case fetchAllItems query db of
        None \<Rightarrow> None
      | Some (Inr items) \<Rightarrow> Some (\<lparr> status = 200, payload = Items items \<rparr>, [])
      | Some (Inl e) \<Rightarrow> Some (\<lparr> status = 500, payload = QueryFailed e \<rparr>, [ErrorLogged e]))"

text \<open>
  The pages a fetch goes through. \<open>visits query db c rs\<close>: starting with cursor \<open>c\<close>,
  the store answers the successive requests with the responses \<open>rs\<close>, every one but
  the last with a cursor to follow. \<open>aborts query db c rs e\<close>: it answers with \<open>rs\<close>,
  all of them with a cursor and with records that normalize, and then fails with \<open>e\<close>.
\<close>

inductive visits :: "store \<Rightarrow> string option \<Rightarrow> js \<Rightarrow> json list \<Rightarrow> bool"
  for query :: store and db :: "string option" where
  last_page:
    "query (query_request db c) = Inr resp \<Longrightarrow> \<not> truthy (next_cursor resp) \<Longrightarrow>
     visits query db c [resp]"
| more_pages:
    "query (query_request db c) = Inr resp \<Longrightarrow> truthy (next_cursor resp) \<Longrightarrow>
     visits query db (next_cursor resp) rs \<Longrightarrow>
     visits query db c (resp # rs)"

inductive aborts :: "store \<Rightarrow> string option \<Rightarrow> js \<Rightarrow> json list \<Rightarrow> error \<Rightarrow> bool"
  for query :: store and db :: "string option" where
  fails:
    "query (query_request db c) = Inl e \<Longrightarrow> aborts query db c [] e"
| fails_later:
    "query (query_request db c) = Inr resp \<Longrightarrow> page_items resp = Inr its \<Longrightarrow>
     truthy (next_cursor resp) \<Longrightarrow> aborts query db (next_cursor resp) rs e \<Longrightarrow>
     aborts query db c (resp # rs) e"

code_pred (modes: i \<Rightarrow> i \<Rightarrow> i \<Rightarrow> o \<Rightarrow> bool, i \<Rightarrow> i \<Rightarrow> i \<Rightarrow> i \<Rightarrow> bool) visits .

code_pred (modes: i \<Rightarrow> i \<Rightarrow> i \<Rightarrow> o \<Rightarrow> o \<Rightarrow> bool, i \<Rightarrow> i \<Rightarrow> i \<Rightarrow> i \<Rightarrow> i \<Rightarrow> bool) aborts .

section \<open>Signing a payload\<close>

subsection \<open>\<^verbatim>\<open>JSON.stringify\<close>\<close>

definition hexdigit :: "nat \<Rightarrow> char" where
  "hexdigit n = ''0123456789abcdef'' ! (n mod 16)"

text \<open>A code unit inside a quoted string: the quote, the backslash and the control
  characters are escaped, every other code unit stands for itself.\<close>

definition escape_char :: "char \<Rightarrow> string" where
  "escape_char c =
     (let n = (of_char c :: nat) in
      if n = 34 then [CHR 0x5C, CHR 0x22]
      else if n = 92 then [CHR 0x5C, CHR 0x5C]
      else if n = 8 then [CHR 0x5C, CHR ''b'']
      else if n = 12 then [CHR 0x5C, CHR ''f'']
      else if n = 10 then [CHR 0x5C, CHR ''n'']
      else if n = 13 then [CHR 0x5C, CHR ''r'']
      else if n = 9 then [CHR 0x5C, CHR ''t'']
      else if n < 32 then [CHR 0x5C, CHR ''u'', CHR ''0'', CHR ''0'', hexdigit (n div 16), hexdigit n]
      else [c])"

definition quote :: "string \<Rightarrow> string" where
  "quote s = CHR 0x22 # concat (map escape_char s) @ [CHR 0x22]"

text \<open>The minified text of a value, without indentation: what \<^verbatim>\<open>JSON.stringify(v)\<close>
  returns for a parsed value.\<close>

fun stringify :: "json \<Rightarrow> string"
  and stringify_elems :: "json list \<Rightarrow> string list"
  and stringify_props :: "(string \<times> json) list \<Rightarrow> string list" where
  "stringify JNull = ''null''"
| "stringify (JBool b) = (if b then ''true'' else ''false'')"
| "stringify (JNum n) = show_int n"
| "stringify (JStr s) = quote s"
| "stringify (JArr xs) = ''['' @ join '','' (stringify_elems xs) @ '']''"
| "stringify (JObj kvs) = ''{'' @ join '','' (stringify_props kvs) @ ''}''"
| "stringify_elems [] = []"
| "stringify_elems (x # xs) = stringify x # stringify_elems xs"
| "stringify_props [] = []"
| "stringify_props (kv # kvs) = (quote (fst kv) @ '':'' @ stringify (snd kv)) # stringify_props kvs"

text \<open>\<^verbatim>\<open>JSON.stringify(undefined)\<close> is \<^verbatim>\<open>undefined\<close>.\<close>

definition JSON_stringify :: "js \<Rightarrow> string option" where
  "JSON_stringify v = map_option stringify v"

subsection \<open>Bytes of a string\<close>

text \<open>\<^verbatim>\<open>Buffer.from(s)\<close> and \<^verbatim>\<open>hmac.update(s)\<close> take the UTF-8 encoding of a string:
  one byte for a code unit below 128, two bytes for the others below 256.\<close>

definition utf8_char :: "char \<Rightarrow> nat list" where
  "utf8_char c =
     (let n = (of_char c :: nat) in
      if n < 128 then [n] else [192 + n div 64, 128 + n mod 64])"

definition utf8 :: "string \<Rightarrow> nat list" where
  "utf8 s = concat (map utf8_char s)"

subsection \<open>SHA-256 and HMAC\<close>

text \<open>
  \<^verbatim>\<open>createHmac('sha256', key).update(msg).digest('hex')\<close> of Node's \<^verbatim>\<open>crypto\<close>:
  HMAC (RFC 2104) over SHA-256 (FIPS 180-4). A 32-bit word is a natural number below
  \<open>2^32\<close>, with the wrap-around of the addition written out; a byte is a natural
  number below 256.
\<close>

definition add32 :: "nat \<Rightarrow> nat \<Rightarrow> nat" where
  "add32 x y = (x + y) mod 4294967296"

definition rotr :: "nat \<Rightarrow> nat \<Rightarrow> nat" where
  "rotr n x = x div 2 ^ n + (x mod 2 ^ n) * 2 ^ (32 - n)"

definition shr :: "nat \<Rightarrow> nat \<Rightarrow> nat" where
  "shr n x = x div 2 ^ n"

definition ch :: "nat \<Rightarrow> nat \<Rightarrow> nat \<Rightarrow> nat" where
  "ch x y z = (x AND y) XOR ((4294967295 - x) AND z)"

definition maj :: "nat \<Rightarrow> nat \<Rightarrow> nat \<Rightarrow> nat" where
  "maj x y z = (x AND y) XOR (x AND z) XOR (y AND z)"

definition bsig0 :: "nat \<Rightarrow> nat" where
  "bsig0 x = rotr 2 x XOR rotr 13 x XOR rotr 22 x"

definition bsig1 :: "nat \<Rightarrow> nat" where
  "bsig1 x = rotr 6 x XOR rotr 11 x XOR rotr 25 x"

definition ssig0 :: "nat \<Rightarrow> nat" where
  "ssig0 x = rotr 7 x XOR rotr 18 x XOR shr 3 x"

definition ssig1 :: "nat \<Rightarrow> nat" where
  "ssig1 x = rotr 17 x XOR rotr 19 x XOR shr 10 x"

definition K256 :: "nat list" where
  "K256 = [
   1116352408, 1899447441, 3049323471, 3921009573, 961987163, 1508970993, 2453635748, 2870763221,
   3624381080, 310598401, 607225278, 1426881987, 1925078388, 2162078206, 2614888103, 3248222580,
   3835390401, 4022224774, 264347078, 604807628, 770255983, 1249150122, 1555081692, 1996064986,
   2554220882, 2821834349, 2952996808, 3210313671, 3336571891, 3584528711, 113926993, 338241895,
   666307205, 773529912, 1294757372, 1396182291, 1695183700, 1986661051, 2177026350, 2456956037,
   2730485921, 2820302411, 3259730800, 3345764771, 3516065817, 3600352804, 4094571909, 275423344,
   430227734, 506948616, 659060556, 883997877, 958139571, 1322822218, 1537002063, 1747873779,
   1955562222, 2024104815, 2227730452, 2361852424, 2428436474, 2756734187, 3204031479, 3329325298]"

definition H256 :: "nat list" where
  "H256 = [1779033703, 3144134277, 1013904242, 2773480762,
           1359893119, 2600822924, 528734635, 1541459225]"

text \<open>The message schedule is computed along the rounds: \<open>win\<close> holds the sixteen
  latest words, and the word sixteen rounds ahead is appended at each round.\<close>

definition next_word :: "nat list \<Rightarrow> nat" where
  "next_word win =
     add32 (add32 (add32 (ssig1 (win ! 14)) (win ! 9)) (ssig0 (win ! 1))) (win ! 0)"

fun shift_state :: "nat \<Rightarrow> nat \<Rightarrow> nat list \<Rightarrow> nat list" where
  "shift_state t1 t2 [a, b, c, d, e, f, g, h] = [add32 t1 t2, a, b, c, add32 d t1, e, f, g]"
| "shift_state t1 t2 st = st"

fun round_step :: "nat \<Rightarrow> nat \<Rightarrow> nat list \<Rightarrow> nat list" where
  "round_step k w [a, b, c, d, e, f, g, h] =
     shift_state (add32 (add32 (add32 (add32 h (bsig1 e)) (ch e f g)) k) w)
       (add32 (bsig0 a) (maj a b c)) [a, b, c, d, e, f, g, h]"
| "round_step k w st = st"

fun rounds :: "nat list \<Rightarrow> nat list \<Rightarrow> nat list \<Rightarrow> nat list" where
  "rounds [] win st = st"
| "rounds (k # ks) win st =
     rounds ks (tl win @ [next_word win]) (round_step k (hd win) st)"

definition compress :: "nat list \<Rightarrow> nat list \<Rightarrow> nat list" where
  "compress st block = map2 add32 st (rounds K256 block st)"

fun be_words :: "nat list \<Rightarrow> nat list" where
  "be_words (a # b # c # d # rest) = (((a * 256 + b) * 256 + c) * 256 + d) # be_words rest"
| "be_words _ = []"

definition pad :: "nat list \<Rightarrow> nat list" where
  "pad m =
     m @ [128] @ replicate ((119 - length m mod 64) mod 64) 0 @
     map (\<lambda>d. (8 * length m) div d mod 256)
       [72057594037927936, 281474976710656, 1099511627776, 4294967296, 16777216, 65536, 256, 1]"

function blocks :: "nat list \<Rightarrow> nat list list" where
  "blocks bs = (if bs = [] then [] else be_words (take 64 bs) # blocks (drop 64 bs))"
  by pat_completeness auto
termination
  by (relation "measure length") auto

declare blocks.simps [simp del]

definition word_bytes :: "nat \<Rightarrow> nat list" where
  "word_bytes w = [w div 16777216 mod 256, w div 65536 mod 256, w div 256 mod 256, w mod 256]"

definition sha256 :: "nat list \<Rightarrow> nat list" where
  "sha256 m = concat (map word_bytes (foldl compress H256 (blocks (pad m))))"

definition hmac_sha256 :: "nat list \<Rightarrow> nat list \<Rightarrow> nat list" where
  "hmac_sha256 key m =
     (let k0 = (if length key > 64 then sha256 key else key);
          k = k0 @ replicate (64 - length k0) 0
      in sha256 (map (\<lambda>b. b XOR 92) k @ sha256 (map (\<lambda>b. b XOR 54) k @ m)))"

definition hex :: "nat list \<Rightarrow> string" where
  "hex bs = concat (map (\<lambda>b. [hexdigit (b div 16), hexdigit b]) bs)"

definition hmac_hex :: "string \<Rightarrow> string \<Rightarrow> string" where
  "hmac_hex key msg = hex (hmac_sha256 (utf8 key) (utf8 msg))"

text \<open>\<^verbatim>\<open>timingSafeEqual(a, b)\<close> throws a RangeError when the two buffers differ in
  length.\<close>

definition timingSafeEqual :: "nat list \<Rightarrow> nat list \<Rightarrow> error + bool" where
  "timingSafeEqual a b = (if length a \<noteq> length b then Inl RangeError else Inr (a = b))"

section \<open>The JSON middleware\<close>

text \<open>
  For a request of content type \<^verbatim>\<open>application/json\<close>, \<^verbatim>\<open>express.json()\<close> turns the
  bytes of the body into \<^verbatim>\<open>req.body\<close>: it decodes them as UTF-8 and hands the text to
  \<^verbatim>\<open>JSON.parse\<close>, after checking that the first character that is not white space
  opens an object or an array; an empty body gives the empty object. The model covers a
  fragment of JSON: code points below 256, integers of at most 53 bits without
  fraction or exponent, objects whose keys are distinct and not made of digits.
  \<open>None\<close> stands for a body that is not JSON (the middleware answers 400 and the
  handler does not run) as well as for one outside this fragment.
\<close>

fun decode_utf8 :: "nat list \<Rightarrow> string option" where
  "decode_utf8 [] = Some []"
| "decode_utf8 [b] = (if b < 128 then Some [char_of b] else None)"
| "decode_utf8 (b # c # bs) =
     (if b < 128 then map_option ((#) (char_of b)) (decode_utf8 (c # bs))
      else if (b = 194 \<or> b = 195) \<and> 128 \<le> c \<and> c < 192
      then map_option ((#) (char_of ((b - 192) * 64 + (c - 128)))) (decode_utf8 bs)
      else None)"

definition is_ws :: "char \<Rightarrow> bool" where
  "is_ws c = (of_char c \<in> {9, 10, 13, 32 :: nat})"

definition skip_ws :: "string \<Rightarrow> string" where
  "skip_ws s = dropWhile is_ws s"

definition is_digit :: "char \<Rightarrow> bool" where
  "is_digit c = (48 \<le> (of_char c :: nat) \<and> (of_char c :: nat) \<le> 57)"

definition digits_value :: "string \<Rightarrow> nat" where
  "digits_value ds = foldl (\<lambda>n c. 10 * n + (of_char c - 48)) 0 ds"

text \<open>An integer literal: an optional minus sign and digits without a leading zero,
  not followed by a fraction or an exponent.\<close>

definition parse_nat :: "string \<Rightarrow> (nat \<times> string) option" where
  "parse_nat s =
     (let ds = takeWhile is_digit s; r = dropWhile is_digit s in
      if ds = [] \<or> (hd ds = CHR ''0'' \<and> length ds > 1) then None
      else if r \<noteq> [] \<and> hd r \<in> {CHR ''.'', CHR ''e'', CHR ''E''} then None
      else if digits_value ds > 9007199254740991 then None
      else Some (digits_value ds, r))"

definition parse_int :: "string \<Rightarrow> (int \<times> string) option" where
  "parse_int s =
     (case s of
        [] \<Rightarrow> None
      | c # r \<Rightarrow>
          (if c = CHR ''-'' then map_option (\<lambda>(n, r'). (- int n, r')) (parse_nat r)
           else map_option (\<lambda>(n, r'). (int n, r')) (parse_nat s)))"

definition hex_value :: "char \<Rightarrow> nat option" where
  "hex_value c =
     (let n = (of_char c :: nat) in
      if 48 \<le> n \<and> n \<le> 57 then Some (n - 48)
      else if 97 \<le> n \<and> n \<le> 102 then Some (n - 87)
      else if 65 \<le> n \<and> n \<le> 70 then Some (n - 55)
      else None)"

fun hex4 :: "string \<Rightarrow> nat option" where
  "hex4 (a # b # c # d # r) =
     (case (hex_value a, hex_value b, hex_value c, hex_value d) of
        (Some x, Some y, Some z, Some w) \<Rightarrow> Some (((x * 16 + y) * 16 + z) * 16 + w)
      | _ \<Rightarrow> None)"
| "hex4 _ = None"

text \<open>The character an escape sequence of one letter stands for.\<close>

definition simple_escape :: "char \<Rightarrow> char option" where
  "simple_escape e =
     (if e = CHR 0x22 then Some (CHR 0x22)
      else if e = CHR 0x5C then Some (CHR 0x5C)
      else if e = CHR ''/'' then Some (CHR ''/'')
      else if e = CHR ''b'' then Some (CHR 0x08)
      else if e = CHR ''f'' then Some (CHR 0x0C)
      else if e = CHR ''n'' then Some (CHR 0x0A)
      else if e = CHR ''r'' then Some (CHR 0x0D)
      else if e = CHR ''t'' then Some (CHR 0x09)
      else None)"

text \<open>The characters of a string literal, after its opening quote, and the rest of the
  text after its closing quote.\<close>

fun parse_chars :: "string \<Rightarrow> (string \<times> string) option" where
  "parse_chars [] = None"
| "parse_chars (c # cs) =
     (if c = CHR 0x22 then Some ([], cs)
      else if c = CHR 0x5C then
        (case cs of
           [] \<Rightarrow> None
         | e # es \<Rightarrow>
             (if e = CHR ''u'' then
                (case hex4 es of
                   None \<Rightarrow> None
                 | Some n \<Rightarrow>
                     (if n < 256
                      then map_option (\<lambda>(t, r). (char_of n # t, r)) (parse_chars (drop 4 es))
                      else None))
              else
                (case simple_escape e of
                   None \<Rightarrow> None
                 | Some x \<Rightarrow> map_option (\<lambda>(t, r). (x # t, r)) (parse_chars es))))
      else if (of_char c :: nat) < 32 then None
      else map_option (\<lambda>(t, r). (c # t, r)) (parse_chars cs))"

definition plain_keys :: "(string \<times> json) list \<Rightarrow> bool" where
  "plain_keys kvs =
     (distinct (map fst kvs) \<and> list_all (\<lambda>kv. \<not> (fst kv \<noteq> [] \<and> list_all is_digit (fst kv))) kvs)"

text \<open>
  A value, the elements of an array after its opening bracket, and the members of an
  object after its opening brace, each with the rest of the text. The first argument
  bounds the depth of the recursion: a list that is consumed by one element at each
  call, for which the text itself is long enough.
\<close>

fun parse_value :: "string \<Rightarrow> string \<Rightarrow> (json \<times> string) option"
  and parse_elems :: "string \<Rightarrow> string \<Rightarrow> (json list \<times> string) option"
  and parse_members :: "string \<Rightarrow> string \<Rightarrow> ((string \<times> json) list \<times> string) option" where
  "parse_value [] s = None"
| "parse_value (x # n) s =
     (case skip_ws s of
        [] \<Rightarrow> None
      | c # r \<Rightarrow>
          (if c = CHR ''{'' then
             (case skip_ws r of
                [] \<Rightarrow> None
              | d # r' \<Rightarrow>
                  (if d = CHR ''}'' then Some (JObj [], r')
                   else
                     (case parse_members n r of
                        None \<Rightarrow> None
                      | Some (kvs, r'') \<Rightarrow> if plain_keys kvs then Some (JObj kvs, r'') else None)))
           else if c = CHR ''['' then
             (case skip_ws r of
                [] \<Rightarrow> None
              | d # r' \<Rightarrow>
                  (if d = CHR '']'' then Some (JArr [], r')
                   else map_option (\<lambda>(vs, r''). (JArr vs, r'')) (parse_elems n r)))
           else if c = CHR 0x22 then map_option (\<lambda>(t, r'). (JStr t, r')) (parse_chars r)
           else if take 4 (c # r) = ''null'' then Some (JNull, drop 3 r)
           else if take 4 (c # r) = ''true'' then Some (JBool True, drop 3 r)
           else if take 5 (c # r) = ''false'' then Some (JBool False, drop 4 r)
           else map_option (\<lambda>(i, r'). (JNum i, r')) (parse_int (c # r))))"
| "parse_elems [] s = None"
| "parse_elems (x # n) s =
     (case parse_value n s of
        None \<Rightarrow> None
      | Some (v, r) \<Rightarrow>
          (case skip_ws r of
             [] \<Rightarrow> None
           | c # r' \<Rightarrow>
               (if c = CHR '','' then map_option (\<lambda>(vs, r''). (v # vs, r'')) (parse_elems n r')
                else if c = CHR '']'' then Some ([v], r')
                else None)))"
| "parse_members [] s = None"
| "parse_members (x # n) s =
     (case skip_ws s of
        [] \<Rightarrow> None
      | q # r \<Rightarrow>
          (if q \<noteq> CHR 0x22 then None
           else
             (case parse_chars r of
                None \<Rightarrow> None
              | Some (k, r1) \<Rightarrow>
                  (case skip_ws r1 of
                     [] \<Rightarrow> None
                   | c # r2 \<Rightarrow>
                       (if c \<noteq> CHR '':'' then None
                        else
                          (case parse_value n r2 of
                             None \<Rightarrow> None
                           | Some (v, r3) \<Rightarrow>
                               (case skip_ws r3 of
                                  [] \<Rightarrow> None
                                | d # r4 \<Rightarrow>
                                    (if d = CHR '','' then
                                       map_option (\<lambda>(kvs, r5). ((k, v) # kvs, r5))
                                         (parse_members n r4)
                                     else if d = CHR ''}'' then Some ([(k, v)], r4)
                                     else None))))))))"

definition JSON_parse :: "string \<Rightarrow> json option" where
  "JSON_parse s =
     (case parse_value (CHR ''x'' # s) s of
        None \<Rightarrow> None
      | Some (v, r) \<Rightarrow> if skip_ws r = [] then Some v else None)"

definition express_json :: "nat list \<Rightarrow> json option" where
  "express_json raw =
     (if raw = [] then Some (JObj [])
      else
        (case decode_utf8 raw of
           None \<Rightarrow> None
         | Some text \<Rightarrow>
             (case skip_ws text of
                [] \<Rightarrow> None
              | c # r \<Rightarrow> if c = CHR ''{'' \<or> c = CHR ''['' then JSON_parse text else None)))"

section \<open>The event streams and the reload timer\<close>

text \<open>
  A response object of an event stream: its headers, whether its connection is gone,
  and the chunks it has accepted. \<^verbatim>\<open>res.write(chunk)\<close> on a stream whose connection is
  gone returns \<^verbatim>\<open>false\<close> and delivers nothing; it does not throw.
\<close>

record stream =
  headers :: "(string \<times> string) list"
  destroyed :: bool
  written :: "string list"

definition res_write :: "stream \<Rightarrow> string \<Rightarrow> bool \<times> stream" where
  "res_write r chunk =
     (if destroyed r then (False, r) else (True, r\<lparr> written := written r @ [chunk] \<rparr>))"

definition setHeader :: "string \<Rightarrow> string \<Rightarrow> stream \<Rightarrow> stream" where
  "setHeader k v r = r\<lparr> headers := AList.update k v (headers r) \<rparr>"

text \<open>
  The state of the process. \<open>sseClients\<close> is the \<^verbatim>\<open>Set\<close> of response objects, in
  insertion order, each named by the number of its connection; \<open>conns\<close> holds the
  objects. \<open>reloadTimer\<close> is the variable of that name (\<open>None\<close> is \<^verbatim>\<open>null\<close>).
  \<open>timeouts\<close> are the pending timeouts of the runtime, each with its handle and the time
  it is due; \<open>next_ping\<close> is when the keepalive interval fires next. \<open>clock\<close> is
  \<^verbatim>\<open>Date.now()\<close> in milliseconds. \<open>console\<close> is what has been printed. \<open>emitted\<close>
  records every call of \<^verbatim>\<open>sseBroadcast\<close>: the time, the event and the data.
\<close>

record server =
  sseClients :: "nat list"
  conns :: "nat \<Rightarrow> stream"
  reloadTimer :: "nat option"
  timeouts :: "(nat \<times> nat) list"
  next_handle :: nat
  next_ping :: nat
  clock :: nat
  console :: "log_entry list"
  emitted :: "(nat \<times> string \<times> json) list"

definition sseHeaders :: "stream \<Rightarrow> stream" where
  "sseHeaders r =
     setHeader ''Connection'' ''keep-alive''
       (setHeader ''Cache-Control'' ''no-cache, no-transform''
          (setHeader ''Content-Type'' ''text/event-stream'' r))"

text \<open>The two writes of \<^verbatim>\<open>sseSend\<close>; what \<^verbatim>\<open>res.write\<close> returns is not looked at.\<close>

definition sseSend :: "stream \<Rightarrow> string \<Rightarrow> json \<Rightarrow> stream" where
  "sseSend r event data =
     snd (res_write (snd (res_write r (''event: '' @ event @ [CHR 0x0A])))
            (''data: '' @ stringify data @ [CHR 0x0A, CHR 0x0A]))"

definition send_to :: "string \<Rightarrow> json \<Rightarrow> server \<Rightarrow> nat \<Rightarrow> server" where
  "send_to event data s c = s\<lparr> conns := (conns s)(c := sseSend (conns s c) event data) \<rparr>"

text \<open>\<^verbatim>\<open>for (const client of sseClients) sseSend(client, event, data)\<close>.\<close>

definition sseBroadcast :: "string \<Rightarrow> json \<Rightarrow> server \<Rightarrow> server" where
  "sseBroadcast event data s =
     foldl (send_to event data) (s\<lparr> emitted := emitted s @ [(clock s, event, data)] \<rparr>)
       (sseClients s)"

text \<open>\<^verbatim>\<open>{ t: Date.now() }\<close>.\<close>

definition timestamp :: "server \<Rightarrow> json" where
  "timestamp s = JObj [(''t'', JNum (int (clock s)))]"

definition clearTimeout :: "nat option \<Rightarrow> server \<Rightarrow> server" where
  "clearTimeout h s = s\<lparr> timeouts := filter (\<lambda>t. Some (fst t) \<noteq> h) (timeouts s) \<rparr>"

definition setTimeout :: "nat \<Rightarrow> server \<Rightarrow> nat \<times> server" where
  "setTimeout delay s =
     (next_handle s,
      s\<lparr> timeouts := timeouts s @ [(next_handle s, clock s + delay)],
         next_handle := Suc (next_handle s) \<rparr>)"

definition scheduleReload :: "server \<Rightarrow> server" where
  "scheduleReload s =
     (case setTimeout 200 (clearTimeout (reloadTimer s) s) of
        (h, s') \<Rightarrow> s'\<lparr> reloadTimer := Some h \<rparr>)"

text \<open>
  The event loop, one millisecond at a time: the clock moves on, every timeout that is
  due runs its callback \<^verbatim>\<open>sseBroadcast('reload', { t: Date.now() })\<close> and is gone, and
  the keepalive interval of 25 seconds, when due, broadcasts \<^verbatim>\<open>ping\<close> and is armed
  again. Callbacks run at the millisecond they are due.
\<close>

definition run_timeouts :: "server \<Rightarrow> server" where
  "run_timeouts s =
     foldl (\<lambda>s' t. sseBroadcast ''reload'' (timestamp s') s')
       (s\<lparr> timeouts := filter (\<lambda>t. clock s < snd t) (timeouts s) \<rparr>)
       (filter (\<lambda>t. snd t \<le> clock s) (timeouts s))"

definition run_ping :: "server \<Rightarrow> server" where
  "run_ping s =
     (if next_ping s \<le> clock s
      then sseBroadcast ''ping'' (timestamp s) (s\<lparr> next_ping := next_ping s + 25000 \<rparr>)
      else s)"

definition tick :: "server \<Rightarrow> server" where
  "tick s = run_ping (run_timeouts (s\<lparr> clock := Suc (clock s) \<rparr>))"

fun advance :: "nat \<Rightarrow> server \<Rightarrow> server" where
  "advance 0 s = s"
| "advance (Suc n) s = advance n (tick s)"

text \<open>The process as it starts at time \<open>t\<close>: no client, no timeout, the interval armed.\<close>

definition start :: "nat \<Rightarrow> server" where
  "start t =
     \<lparr> sseClients = [], conns = (\<lambda>c. \<lparr> headers = [], destroyed = False, written = [] \<rparr>),
       reloadTimer = None, timeouts = [], next_handle = 0, next_ping = t + 25000, clock = t,
       console = [], emitted = [] \<rparr>"

text \<open>The handler of \<^verbatim>\<open>GET /api/stream\<close> for the connection \<open>c\<close>, and the listener of
  its \<^verbatim>\<open>close\<close> event.\<close>

definition api_stream :: "nat \<Rightarrow> server \<Rightarrow> server" where
  "api_stream c s =
     (let r = sseSend (sseHeaders (conns s c)) ''hello'' (JObj [(''ok'', JBool True)])
      in s\<lparr> conns := (conns s)(c := r),
            sseClients := (if c \<in> set (sseClients s) then sseClients s else sseClients s @ [c]) \<rparr>)"

definition on_close :: "nat \<Rightarrow> server \<Rightarrow> server" where
  "on_close c s = s\<lparr> sseClients := removeAll c (sseClients s) \<rparr>"

text \<open>The connection \<open>c\<close> goes away. Its \<^verbatim>\<open>close\<close> event comes later, in a turn of
  the event loop of its own.\<close>

definition connection_lost :: "nat \<Rightarrow> server \<Rightarrow> server" where
  "connection_lost c s = s\<lparr> conns := (conns s)(c := (conns s c)\<lparr> destroyed := True \<rparr>) \<rparr>"

text \<open>A burst of calls of \<^verbatim>\<open>scheduleReload\<close>: one call now and one more after each of
  the gaps, in milliseconds.\<close>

definition burst :: "nat list \<Rightarrow> server \<Rightarrow> server" where
  "burst gaps s = foldl (\<lambda>s' g. scheduleReload (advance g s')) (scheduleReload s) gaps"

text \<open>The times at which a \<^verbatim>\<open>reload\<close> event has been broadcast.\<close>

definition reloads :: "server \<Rightarrow> nat list" where
  "reloads s = map fst (filter (\<lambda>e. fst (snd e) = ''reload'') (emitted s))"

section \<open>The webhook\<close>

text \<open>
  A request as the handler sees it: the value of the header \<^verbatim>\<open>X-Notion-Signature\<close>, if
  there is one, and \<^verbatim>\<open>req.body\<close>, which the JSON middleware has parsed from the bytes
  received.
\<close>

record request =
  signature :: "string option"
  body :: js

text \<open>\<^verbatim>\<open>WEBHOOK_SECRET\<close> is an environment variable: a string or \<^verbatim>\<open>undefined\<close>. The
  empty string is falsy.\<close>

definition secret_set :: "string option \<Rightarrow> bool" where
  "secret_set secret = (case secret of None \<Rightarrow> False | Some k \<Rightarrow> k \<noteq> [])"

text \<open>\<^verbatim>\<open>req.header('X-Notion-Signature') || req.header('x-notion-signature') || ''\<close>.\<close>

definition signatureHeader :: "request \<Rightarrow> string" where
  "signatureHeader req = (case signature req of None \<Rightarrow> [] | Some h \<Rightarrow> h)"

text \<open>The digest the handler expects. \<^verbatim>\<open>hmac.update(undefined)\<close> throws a TypeError.\<close>

definition calc :: "string \<Rightarrow> request \<Rightarrow> error + string" where
  "calc k req =
     (case JSON_stringify (body req) of
        None \<Rightarrow> Inl TypeError
      | Some payloadMinified \<Rightarrow> Inr (''sha256='' @ hmac_hex k payloadMinified))"

definition trusted :: "string \<Rightarrow> request \<Rightarrow> error + bool" where
  "trusted k req =
     (case calc k req of
        Inl e \<Rightarrow> Inl e
      | Inr c \<Rightarrow>
          (if length (signatureHeader req) = length c
           then timingSafeEqual (utf8 (signatureHeader req)) (utf8 c)
           else Inr False))"

definition accept :: "server \<Rightarrow> response \<times> server" where
  "accept s = (\<lparr> status = 200, payload = Ok \<rparr>, scheduleReload s)"

definition notion_webhook :: "string option \<Rightarrow> request \<Rightarrow> server \<Rightarrow> response \<times> server" where
  "notion_webhook secret req s =
     (if truthy (body req) \<and> truthy (opt_prop (body req) ''verification_token'') \<and>
         \<not> secret_set secret
      then (\<lparr> status = 200, payload = OkVerification \<rparr>,
            s\<lparr> console := console s @
                 [TokenReceived,
                  TokenValue (or_else (opt_prop (body req) ''verification_token'') JNull),
                  TokenHint] \<rparr>)
      else
        (case secret of
           None \<Rightarrow> accept s
         | Some k \<Rightarrow>
             (if k = [] then accept s
              else
                (case trusted k req of
                   Inl e \<Rightarrow>
                     (\<lparr> status = 500, payload = NotOk \<rparr>,
                      s\<lparr> console := console s @ [ErrorLogged e] \<rparr>)
                 | Inr False \<Rightarrow>
                     (\<lparr> status = 202, payload = SignatureMismatch \<rparr>,
                      s\<lparr> console := console s @ [SignatureWarning] \<rparr>)
                 | Inr True \<Rightarrow> accept s))))"

section \<open>Notions used in the statements\<close>

text \<open>A string of code units below 128: its UTF-8 encoding has one byte for each.\<close>

definition ascii :: "string \<Rightarrow> bool" where
  "ascii s = list_all (\<lambda>c. (of_char c :: nat) < 128) s"

text \<open>The header value the handler accepts for the parsed body \<open>b\<close> under the secret
  \<open>k\<close>.\<close>

definition expected :: "string \<Rightarrow> json \<Rightarrow> string" where
  "expected k b = ''sha256='' @ hmac_hex k (stringify b)"

text \<open>Every pending timeout is the one \<open>reloadTimer\<close> holds.\<close>

definition single_timer :: "server \<Rightarrow> bool" where
  "single_timer s = list_all (\<lambda>t. Some (fst t) = reloadTimer s) (timeouts s)"

text \<open>
  The record store as a fetch meets it. \<open>serves query db c rs\<close>: asked for 100 records
  a page in the order the server asks for, first with the cursor \<open>c\<close> and then each time
  with the \<^verbatim>\<open>next_cursor\<close> of the page before, the store answers with the pages \<open>rs\<close>;
  every page but the last has a truthy \<^verbatim>\<open>has_more\<close> and a truthy \<^verbatim>\<open>next_cursor\<close>, and
  the last page lacks one of the two.
\<close>

fun serves :: "store \<Rightarrow> string option \<Rightarrow> js \<Rightarrow> json list \<Rightarrow> bool" where
  "serves query db c [] = False"
| "serves query db c (r # rs) =
     (query \<lparr> database_id = db, start_cursor = c, page_size = 100,
        sorts = [Property ''level'' Ascending, Timestamp ''last_edited_time'' Ascending] \<rparr> = Inr r \<and>
      (if truthy (member r ''has_more'') \<and> truthy (member r ''next_cursor'')
       then serves query db (member r ''next_cursor'') rs
       else rs = []))"

section \<open>Sample data\<close>

text \<open>A property map with one title field, whose fragments have the given texts.\<close>

definition titled :: "string \<Rightarrow> string list \<Rightarrow> json" where
  "titled field texts =
     JObj [(field, JObj [(''title'', JArr (map (\<lambda>t. JObj [(''plain_text'', JStr t)]) texts))])]"

text \<open>Three records of the store: one named by the primary field, one by the fallback
  field, one whose title has an empty first fragment.\<close>

definition record_a :: json where
  "record_a = JObj [(''id'', JStr ''a''), (''properties'', titled ''item name'' [''  Alpha ''])]"

definition record_b :: json where
  "record_b = JObj [(''id'', JStr ''b''), (''properties'', titled ''Name'' [''Beta''])]"

definition record_c :: json where
  "record_c = JObj [(''id'', JStr ''c''), (''properties'', titled ''item name'' [[], ''Gamma''])]"

text \<open>A record whose title has two fragments with text, and so has its field
  \<^verbatim>\<open>upper\<close>.\<close>

definition record_d :: json where
  "record_d = JObj [(''id'', JStr ''d''), (''properties'', JObj [
     (''item name'', JObj [(''title'',
        JArr [JObj [(''plain_text'', JStr '' Gamma '')], JObj [(''plain_text'', JStr ''Delta'')]])]),
     (''upper'', JObj [(''rich_text'',
        JArr [JObj [(''plain_text'', JStr ''Al'')], JObj [(''plain_text'', JStr ''pha'')]])])])]"

definition page_one :: json where
  "page_one = JObj [(''results'', JArr [record_a, record_c]), (''has_more'', JBool True),
     (''next_cursor'', JStr ''c1'')]"

definition page_two :: json where
  "page_two = JObj [(''results'', JArr [record_b]), (''has_more'', JBool False),
     (''next_cursor'', JNull)]"

text \<open>A store of two pages, and one that fails on the second request.\<close>

definition two_pages :: store where
  "two_pages args =
     (if start_cursor args = None then Inr page_one
      else if start_cursor args = Some (JStr ''c1'') then Inr page_two
      else Inl (Rejected None))"

definition broken_store :: store where
  "broken_store args =
     (if start_cursor args = None then Inr page_one
      else Inl (Rejected (Some (JStr ''timeout''))))"

text \<open>A store that answers only requests for 100 records a page in the order the
  server asks for. Its second page has no more pages after it and yet carries a cursor,
  at which the store would answer with a third page.\<close>

definition page_last :: json where
  "page_last = JObj [(''results'', JArr [record_b]), (''has_more'', JBool False),
     (''next_cursor'', JStr ''c2'')]"

definition page_extra :: json where
  "page_extra = JObj [(''results'', JArr [record_d]), (''has_more'', JBool False),
     (''next_cursor'', JNull)]"

definition strict_store :: store where
  "strict_store args =
     (if page_size args \<noteq> 100 \<or>
         sorts args \<noteq> [Property ''level'' Ascending, Timestamp ''last_edited_time'' Ascending]
      then Inl (Rejected None)
      else if start_cursor args = None then Inr page_one
      else if start_cursor args = Some (JStr ''c1'') then Inr page_last
      else if start_cursor args = Some (JStr ''c2'') then Inr page_extra
      else Inl (Rejected None))"

definition plain_item :: "string \<Rightarrow> string \<Rightarrow> item" where
  "plain_item i n =
     \<lparr> item_id = Some (JStr i), name = n, level = JNull, upper = JNull, dependency = JNull,
       early_start = JNull, late_start = JNull, early_finish = JNull, late_finish = JNull,
       item_done = False \<rparr>"

text \<open>A process after two subscriptions, the first of which has lost its connection
  while its \<^verbatim>\<open>close\<close> event is still to come.\<close>

definition two_clients :: server where
  "two_clients = connection_lost 1 (api_stream 2 (api_stream 1 (start 0)))"

text \<open>Two request bodies that differ in one byte, the case of a hexadecimal digit:
  \<^verbatim>\<open>{"a":"\u001f"}\<close> and \<^verbatim>\<open>{"a":"\u001F"}\<close>; and the body \<^verbatim>\<open>{"a": 1}\<close>, which has a space
  that the minified text has not.\<close>

definition body_lower :: string where
  "body_lower = ''{'' @ [CHR 0x22] @ ''a'' @ [CHR 0x22] @ '':'' @ [CHR 0x22, CHR 0x5C] @
     ''u001f'' @ [CHR 0x22] @ ''}''"

definition body_upper :: string where
  "body_upper = ''{'' @ [CHR 0x22] @ ''a'' @ [CHR 0x22] @ '':'' @ [CHR 0x22, CHR 0x5C] @
     ''u001F'' @ [CHR 0x22] @ ''}''"

definition body_spaced :: string where
  "body_spaced = ''{'' @ [CHR 0x22] @ ''a'' @ [CHR 0x22] @ '': 1}''"

section \<open>Normalization and fetching\<close>

lemma fetch_loop_visits:
  "visits query db c rs \<Longrightarrow> map_err page_items rs = Inr iss \<Longrightarrow>
   fetch_loop query db acc c = Some (Inr (acc @ concat iss))"
proof (induction arbitrary: acc iss rule: visits.induct)
  case (last_page c resp)
  then show ?case
    by (subst fetch_loop.simps) (auto split: sum.splits)
next
  case (more_pages c resp rs)
  then show ?case
    by (subst fetch_loop.simps) (auto split: sum.splits)
qed

lemma fetch_loop_aborts:
  "aborts query db c rs e \<Longrightarrow> fetch_loop query db acc c = Some (Inl e)"
proof (induction arbitrary: acc rule: aborts.induct)
  case (fails c e)
  then show ?case by (subst fetch_loop.simps) simp
next
  case (fails_later c resp its rs e)
  then show ?case by (subst fetch_loop.simps) simp
qed

lemmas normalize_simps =
  pageToItem_def resolved_name_def title_of_def richToText_def getDate_def text_or_null_def
  fragment_text_def trim_def is_space_def titled_def

lemma pageToItem_record_a: "pageToItem record_a = Inr (plain_item ''a'' ''Alpha'')"
  by (simp add: record_a_def plain_item_def normalize_simps)

lemma pageToItem_record_b: "pageToItem record_b = Inr (plain_item ''b'' ''Beta'')"
  by (simp add: record_b_def plain_item_def normalize_simps)

lemma pageToItem_record_c: "pageToItem record_c = Inr (plain_item ''c'' [])"
  by (simp add: record_c_def plain_item_def normalize_simps)

lemma page_items_page_one: "page_items page_one = Inr [plain_item ''a'' ''Alpha'']"
  by (simp add: page_items_def page_one_def pageToItem_record_a pageToItem_record_c plain_item_def)

lemma page_items_page_two: "page_items page_two = Inr [plain_item ''b'' ''Beta'']"
  by (simp add: page_items_def page_two_def pageToItem_record_b plain_item_def)

lemma next_cursor_page_one: "next_cursor page_one = Some (JStr ''c1'')"
  by (simp add: next_cursor_def page_one_def)

lemma next_cursor_page_two: "next_cursor page_two = None"
  by (simp add: next_cursor_def page_two_def)

lemma visits_two_pages: "visits two_pages db None [page_one, page_two]"
  by (rule more_pages[where resp = page_one] last_page[where resp = page_two]
      | simp add: two_pages_def query_request_def next_cursor_page_one next_cursor_page_two)+

lemma aborts_broken_store:
  "aborts broken_store db None [page_one] (Rejected (Some (JStr ''timeout'')))"
  by (rule fails_later[where resp = page_one and its = "[plain_item ''a'' ''Alpha'']"] fails
      | simp add: broken_store_def query_request_def next_cursor_page_one page_items_page_one)+

lemma fetchAllItems_two_pages:
  "fetchAllItems two_pages None = Some (Inr [plain_item ''a'' ''Alpha'', plain_item ''b'' ''Beta''])"
proof -
  have "map_err page_items [page_one, page_two] =
      Inr [[plain_item ''a'' ''Alpha''], [plain_item ''b'' ''Beta'']]"
    by (simp add: page_items_page_one page_items_page_two)
  from fetch_loop_visits[OF visits_two_pages[of None] this, where acc = "[]"] show ?thesis
    by (simp add: fetchAllItems_def)
qed

text \<open>The name and the field \<^verbatim>\<open>upper\<close> of a normalized record.\<close>

lemma pageToItem_name:
  "pageToItem p = Inr it \<Longrightarrow>
   resolved_name (title_of (or_else (member p ''properties'') (JObj []))) = Inr (name it)"
  by (cases p) (auto simp: pageToItem_def Let_def split: sum.splits)

lemma resolved_name_first:
  "member frag ''plain_text'' = Some (JStr t) \<Longrightarrow>
   resolved_name (JArr (frag # rest)) = Inr (trim t)"
  by (cases frag) (auto simp: resolved_name_def trim_def)

lemma resolved_name_empty_first:
  "\<not> truthy (opt_prop (Some frag) ''plain_text'') \<Longrightarrow>
   resolved_name (JArr (frag # rest)) = Inr []"
  by (cases "opt_prop (Some frag) ''plain_text''") (simp_all add: resolved_name_def trim_def)

text \<open>Every item of a fetch that returns has a name.\<close>

lemma page_items_names: "page_items resp = Inr its \<Longrightarrow> \<forall>it\<in>set its. name it \<noteq> []"
  by (auto simp: page_items_def split: sum.splits option.splits json.splits)

lemma fetch_loop_names_aux:
  "fetch_loop query db acc c = Some r \<Longrightarrow>
   (\<forall>it\<in>set acc. name it \<noteq> []) \<longrightarrow> (\<forall>items. r = Inr items \<longrightarrow> (\<forall>it\<in>set items. name it \<noteq> []))"
proof (induction rule: fetch_loop.raw_induct[rotated -1, consumes 1, case_names 1])
  case (1 fetch_loop query db acc c r)
  show ?case
  proof (cases "query (query_request db c)")
    case (Inl e)
    with 1(2) show ?thesis by auto
  next
    case (Inr resp)
    note q = this
    show ?thesis
    proof (cases "page_items resp")
      case (Inl e)
      with q 1(2) show ?thesis by auto
    next
      case (Inr its)
      have names: "\<forall>it\<in>set its. name it \<noteq> []"
        using Inr by (rule page_items_names)
      show ?thesis
      proof (cases "truthy (next_cursor resp)")
        case True
        with q Inr 1(2) have "fetch_loop query db (acc @ its) (next_cursor resp) = Some r"
          by simp
        from 1(1)[OF this] names show ?thesis by auto
      next
        case False
        with q Inr 1(2) names show ?thesis by auto
      qed
    qed
  qed
qed

lemma fetchAllItems_names:
  "fetchAllItems query db = Some (Inr items) \<Longrightarrow> \<forall>it\<in>set items. name it \<noteq> []"
  using fetch_loop_names_aux[where acc = "[]" and c = None and r = "Inr items" and query = query and db = db]
  by (simp add: fetchAllItems_def)

text \<open>A fetch from a store that serves the pages \<open>rs\<close>.\<close>

lemma map_err_append:
  "map_err f (xs @ ys) = Inr zs \<Longrightarrow>
   \<exists>as bs. map_err f xs = Inr as \<and> map_err f ys = Inr bs \<and> zs = as @ bs"
proof (induction xs arbitrary: zs)
  case Nil
  then show ?case by simp
next
  case (Cons x xs)
  from Cons.prems obtain y ws where y: "f x = Inr y" and ws: "map_err f (xs @ ys) = Inr ws"
    and zs: "zs = y # ws"
    by (auto split: sum.splits)
  from Cons.IH[OF ws] y zs show ?case by auto
qed

lemma page_items_results:
  "member r ''results'' = Some (JArr ps) \<Longrightarrow> map_err pageToItem ps = Inr ys \<Longrightarrow>
   page_items r = Inr (filter (\<lambda>x. name x \<noteq> []) ys)"
  by (cases r) (simp_all add: page_items_def)

lemma fetch_loop_serves:
  "serves query db c rs \<Longrightarrow>
   list_all2 (\<lambda>r ps. member r ''results'' = Some (JArr ps)) rs pss \<Longrightarrow>
   map_err pageToItem (concat pss) = Inr xs \<Longrightarrow>
   fetch_loop query db acc c = Some (Inr (acc @ filter (\<lambda>x. name x \<noteq> []) xs))"
proof (induction rs arbitrary: c acc pss xs)
  case Nil
  then show ?case by simp
next
  case (Cons r rs)
  from Cons.prems(2) obtain ps pss' where pss: "pss = ps # pss'"
    and res: "member r ''results'' = Some (JArr ps)"
    and rest: "list_all2 (\<lambda>r ps. member r ''results'' = Some (JArr ps)) rs pss'"
    by (auto simp: list_all2_Cons1)
  from Cons.prems(3) pss obtain ys zs where ys: "map_err pageToItem ps = Inr ys"
    and zs: "map_err pageToItem (concat pss') = Inr zs" and xs: "xs = ys @ zs"
    by (auto dest: map_err_append)
  have items: "page_items r = Inr (filter (\<lambda>x. name x \<noteq> []) ys)"
    using res ys by (rule page_items_results)
  from Cons.prems(1) have q: "query (query_request db c) = Inr r"
    by (simp add: query_request_def)
  show ?case
  proof (cases "truthy (member r ''has_more'') \<and> truthy (member r ''next_cursor'')")
    case True
    with Cons.prems(1) have "serves query db (member r ''next_cursor'') rs" by simp
    from Cons.IH[OF this rest zs]
    have "fetch_loop query db (acc @ filter (\<lambda>x. name x \<noteq> []) ys) (member r ''next_cursor'') =
        Some (Inr ((acc @ filter (\<lambda>x. name x \<noteq> []) ys) @ filter (\<lambda>x. name x \<noteq> []) zs))" .
    with True q items xs show ?thesis
      by (subst fetch_loop.simps) (simp add: next_cursor_def)
  next
    case False
    with Cons.prems(1) have "rs = []" by simp
    with rest have "pss' = []" by simp
    with zs have "zs = []" by simp
    with False q items xs show ?thesis
      by (subst fetch_loop.simps) (auto simp: next_cursor_def)
  qed
qed

lemma fetchAllItems_serves:
  "serves query db None rs \<Longrightarrow>
   list_all2 (\<lambda>r ps. member r ''results'' = Some (JArr ps)) rs pss \<Longrightarrow>
   map_err pageToItem (concat pss) = Inr xs \<Longrightarrow>
   fetchAllItems query db = Some (Inr (filter (\<lambda>x. name x \<noteq> []) xs))"
  using fetch_loop_serves[where acc = "[]" and c = None] by (simp add: fetchAllItems_def)

lemma map_err_set:
  "map_err f xs = Inr ys \<Longrightarrow> set ys = {y. \<exists>x\<in>set xs. f x = Inr y}"
  by (induction xs arbitrary: ys) (auto split: sum.splits)


lemma map_err_mem:
  "map_err f xs = Inr ys \<Longrightarrow> x \<in> set xs \<Longrightarrow> \<exists>y. f x = Inr y \<and> y \<in> set ys"
  by (induction xs arbitrary: ys) (auto split: sum.splits)

lemma pageToItem_record_d:
  "pageToItem record_d = Inr ((plain_item ''d'' ''Gamma'') \<lparr> upper := JStr ''Alpha'' \<rparr>)"
  by (simp add: record_d_def plain_item_def normalize_simps)

lemma serves_two_pages: "serves two_pages db None [page_one, page_two]"
  by (simp add: two_pages_def page_one_def page_two_def)

lemma serves_strict_store: "serves strict_store db None [page_one, page_last]"
  by (simp add: strict_store_def page_one_def page_last_def)

lemma results_two_pages:
  "list_all2 (\<lambda>r ps. member r ''results'' = Some (JArr ps)) [page_one, page_two]
     [[record_a, record_c], [record_b]]"
  by (simp add: page_one_def page_two_def)

lemma results_strict_store:
  "list_all2 (\<lambda>r ps. member r ''results'' = Some (JArr ps)) [page_one, page_last]
     [[record_a, record_c], [record_b]]"
  by (simp add: page_one_def page_last_def)

lemma normalize_records:
  "map_err pageToItem (concat [[record_a, record_c], [record_b]]) =
     Inr [plain_item ''a'' ''Alpha'', plain_item ''c'' [], plain_item ''b'' ''Beta'']"
  by (simp add: pageToItem_record_a pageToItem_record_b pageToItem_record_c)

lemma pageToItem_title:
  "pageToItem p = Inr it \<Longrightarrow> props = or_else (member p ''properties'') (JObj []) \<Longrightarrow>
   title = or_else (opt_prop (member props ''item name'') ''title'')
             (or_else (opt_prop (member props ''Name'') ''title'') (JArr [])) \<Longrightarrow>
   resolved_name title = Inr (name it)"
  using pageToItem_name[of p it] by (simp add: title_of_def)

lemma pageToItem_upper:
  "pageToItem p = Inr it \<Longrightarrow> props = or_else (member p ''properties'') (JObj []) \<Longrightarrow>
   \<exists>up. richToText (opt_prop (member props ''upper'') ''rich_text'') = Inr up \<and>
     upper it = text_or_null up"
  by (cases p) (auto simp: pageToItem_def Let_def split: sum.splits)

lemma richToText_join:
  "list_all2 (\<lambda>f s. member f ''plain_text'' = Some (JStr s)) frs ts \<Longrightarrow>
   richToText (Some (JArr frs)) = Inr (concat ts)"
proof -
  assume a: "list_all2 (\<lambda>f s. member f ''plain_text'' = Some (JStr s)) frs ts"
  then have "map_err fragment_text frs = Inr (map JStr ts)"
  proof (induction frs ts rule: list_all2_induct)
    case Nil
    then show ?case by simp
  next
    case (Cons f fs s ss)
    then show ?case by (cases f) (auto simp: fragment_text_def)
  qed
  then show ?thesis by (simp add: richToText_def comp_def)
qed

section \<open>Broadcasting and the reload timer\<close>

lemma foldl_send_to_fields:
  "sseClients (foldl (send_to ev d) s cs) = sseClients s \<and>
   reloadTimer (foldl (send_to ev d) s cs) = reloadTimer s \<and>
   timeouts (foldl (send_to ev d) s cs) = timeouts s \<and>
   next_handle (foldl (send_to ev d) s cs) = next_handle s \<and>
   next_ping (foldl (send_to ev d) s cs) = next_ping s \<and>
   clock (foldl (send_to ev d) s cs) = clock s \<and>
   console (foldl (send_to ev d) s cs) = console s \<and>
   emitted (foldl (send_to ev d) s cs) = emitted s"
  by (induction cs arbitrary: s) (simp_all add: send_to_def)

lemma foldl_send_to_conns:
  "distinct cs \<Longrightarrow>
   conns (foldl (send_to ev d) s cs) c =
     (if c \<in> set cs then sseSend (conns s c) ev d else conns s c)"
  by (induction cs arbitrary: s) (auto simp: send_to_def)

lemma sseBroadcast_fields:
  "sseClients (sseBroadcast ev d s) = sseClients s"
  "reloadTimer (sseBroadcast ev d s) = reloadTimer s"
  "timeouts (sseBroadcast ev d s) = timeouts s"
  "next_handle (sseBroadcast ev d s) = next_handle s"
  "next_ping (sseBroadcast ev d s) = next_ping s"
  "clock (sseBroadcast ev d s) = clock s"
  "console (sseBroadcast ev d s) = console s"
  "emitted (sseBroadcast ev d s) = emitted s @ [(clock s, ev, d)]"
  by (simp_all add: sseBroadcast_def foldl_send_to_fields)

lemma sseBroadcast_conns:
  "distinct (sseClients s) \<Longrightarrow>
   conns (sseBroadcast ev d s) c =
     (if c \<in> set (sseClients s) then sseSend (conns s c) ev d else conns s c)"
  by (simp add: sseBroadcast_def foldl_send_to_conns)

lemma reloads_sseBroadcast:
  "reloads (sseBroadcast ev d s) = reloads s @ (if ev = ''reload'' then [clock s] else [])"
  by (simp add: reloads_def sseBroadcast_fields)

lemma run_ping_fields:
  "reloadTimer (run_ping s) = reloadTimer s"
  "timeouts (run_ping s) = timeouts s"
  "next_handle (run_ping s) = next_handle s"
  "clock (run_ping s) = clock s"
  "reloads (run_ping s) = reloads s"
  by (simp_all add: run_ping_def sseBroadcast_fields reloads_sseBroadcast)
     (simp add: reloads_def)

lemma run_timeouts_none:
  "\<forall>t\<in>set (timeouts s). clock s < snd t \<Longrightarrow> run_timeouts s = s"
proof -
  assume a: "\<forall>t\<in>set (timeouts s). clock s < snd t"
  then have "filter (\<lambda>t. snd t \<le> clock s) (timeouts s) = []"
    by (auto simp: filter_empty_conv)
  moreover from a have "filter (\<lambda>t. clock s < snd t) (timeouts s) = timeouts s"
    by (auto simp: filter_id_conv)
  ultimately show ?thesis by (simp add: run_timeouts_def)
qed

lemma tick_waiting:
  assumes "\<forall>t\<in>set (timeouts s). Suc (clock s) < snd t"
  shows "timeouts (tick s) = timeouts s" "reloadTimer (tick s) = reloadTimer s"
    "next_handle (tick s) = next_handle s" "clock (tick s) = Suc (clock s)"
    "reloads (tick s) = reloads s"
proof -
  have "run_timeouts (s\<lparr>clock := Suc (clock s)\<rparr>) = s\<lparr>clock := Suc (clock s)\<rparr>"
    using assms by (intro run_timeouts_none) simp
  then show "timeouts (tick s) = timeouts s" "reloadTimer (tick s) = reloadTimer s"
    "next_handle (tick s) = next_handle s" "clock (tick s) = Suc (clock s)"
    "reloads (tick s) = reloads s"
    by (simp_all add: tick_def run_ping_fields) (simp add: reloads_def)
qed

lemma advance_waiting:
  "\<forall>t\<in>set (timeouts s). clock s + n < snd t \<Longrightarrow>
   timeouts (advance n s) = timeouts s \<and> reloadTimer (advance n s) = reloadTimer s \<and>
   next_handle (advance n s) = next_handle s \<and> clock (advance n s) = clock s + n \<and>
   reloads (advance n s) = reloads s"
proof (induction n arbitrary: s)
  case 0
  then show ?case by simp
next
  case (Suc n)
  have w: "\<forall>t\<in>set (timeouts s). Suc (clock s) < snd t"
    using Suc.prems by auto
  have "\<forall>t\<in>set (timeouts (tick s)). clock (tick s) + n < snd t"
    using Suc.prems by (simp add: tick_waiting[OF w])
  from Suc.IH[OF this] show ?case
    by (simp add: tick_waiting[OF w])
qed

lemma tick_fires:
  assumes "timeouts s = [(h, Suc (clock s))]"
  shows "timeouts (tick s) = []" "clock (tick s) = Suc (clock s)"
    "reloads (tick s) = reloads s @ [Suc (clock s)]"
  using assms
  by (simp_all add: tick_def run_ping_fields run_timeouts_def sseBroadcast_fields
      reloads_sseBroadcast) (simp add: reloads_def)

lemma advance_fires:
  "timeouts s = [(h, d)] \<Longrightarrow> clock s < d \<Longrightarrow> d \<le> clock s + n \<Longrightarrow>
   reloads (advance n s) = reloads s @ [d] \<and> timeouts (advance n s) = []"
proof (induction n arbitrary: s)
  case 0
  then show ?case by simp
next
  case (Suc n)
  show ?case
  proof (cases "d = Suc (clock s)")
    case True
    with Suc.prems have t: "timeouts s = [(h, Suc (clock s))]" by simp
    have "\<forall>t\<in>set (timeouts (tick s)). clock (tick s) + n < snd t"
      by (simp add: tick_fires[OF t])
    from advance_waiting[OF this] show ?thesis
      by (simp add: tick_fires[OF t] True)
  next
    case False
    with Suc.prems have w: "\<forall>t\<in>set (timeouts s). Suc (clock s) < snd t" by auto
    have "timeouts (tick s) = [(h, d)]" "clock (tick s) < d" "d \<le> clock (tick s) + n"
      using Suc.prems False by (simp_all add: tick_waiting[OF w])
    from Suc.IH[OF this] show ?thesis
      by (simp add: tick_waiting[OF w])
  qed
qed

lemma scheduleReload_single:
  "single_timer s \<Longrightarrow>
   timeouts (scheduleReload s) = [(next_handle s, clock s + 200)] \<and>
   reloadTimer (scheduleReload s) = Some (next_handle s) \<and>
   clock (scheduleReload s) = clock s \<and> reloads (scheduleReload s) = reloads s"
  by (auto simp: single_timer_def scheduleReload_def setTimeout_def clearTimeout_def
      reloads_def list_all_iff filter_empty_conv)

lemma burst_pending:
  "single_timer s \<Longrightarrow> \<forall>g\<in>set gaps. g < 200 \<Longrightarrow>
   (\<exists>h. timeouts (burst gaps s) = [(h, clock s + sum_list gaps + 200)] \<and>
        reloadTimer (burst gaps s) = Some h) \<and>
   clock (burst gaps s) = clock s + sum_list gaps \<and> reloads (burst gaps s) = reloads s"
proof (induction gaps rule: rev_induct)
  case Nil
  then show ?case by (simp add: burst_def scheduleReload_single)
next
  case (snoc g gaps)
  let ?s = "burst gaps s"
  from snoc obtain h where
    p: "timeouts ?s = [(h, clock s + sum_list gaps + 200)]" "reloadTimer ?s = Some h"
      "clock ?s = clock s + sum_list gaps" "reloads ?s = reloads s"
    by auto
  have g: "g < 200" using snoc.prems by simp
  have "\<forall>t\<in>set (timeouts ?s). clock ?s + g < snd t"
    using p g by simp
  note a = advance_waiting[OF this]
  have "single_timer (advance g ?s)"
    using a p by (simp add: single_timer_def)
  from scheduleReload_single[OF this] a p
  have "timeouts (scheduleReload (advance g ?s)) =
          [(next_handle (advance g ?s), clock s + sum_list (gaps @ [g]) + 200)]"
    "reloadTimer (scheduleReload (advance g ?s)) = Some (next_handle (advance g ?s))"
    "clock (scheduleReload (advance g ?s)) = clock s + sum_list (gaps @ [g])"
    "reloads (scheduleReload (advance g ?s)) = reloads s"
    by simp_all
  moreover have "burst (gaps @ [g]) s = scheduleReload (advance g ?s)"
    by (simp add: burst_def)
  ultimately show ?case by auto
qed

text \<open>The property \<open>single_timer\<close> holds when the process starts and is kept by
  every operation.\<close>

lemma foldl_reload_fields:
  "timeouts (foldl (\<lambda>s' t. sseBroadcast ''reload'' (timestamp s') s') s ts) = timeouts s \<and>
   reloadTimer (foldl (\<lambda>s' t. sseBroadcast ''reload'' (timestamp s') s') s ts) = reloadTimer s \<and>
   clock (foldl (\<lambda>s' t. sseBroadcast ''reload'' (timestamp s') s') s ts) = clock s"
  by (induction ts arbitrary: s) (simp_all add: sseBroadcast_fields)

lemma single_timer_start: "single_timer (start t)"
  by (simp add: single_timer_def start_def)

lemma single_timer_scheduleReload: "single_timer s \<Longrightarrow> single_timer (scheduleReload s)"
  by (simp add: scheduleReload_single single_timer_def)

lemma single_timer_sseBroadcast: "single_timer (sseBroadcast ev d s) = single_timer s"
  by (simp add: single_timer_def sseBroadcast_fields)

lemma single_timer_tick: "single_timer s \<Longrightarrow> single_timer (tick s)"
  by (simp add: tick_def run_ping_fields run_timeouts_def foldl_reload_fields single_timer_def
      list_all_iff)

lemma single_timer_advance: "single_timer s \<Longrightarrow> single_timer (advance n s)"
  by (induction n arbitrary: s) (simp_all add: single_timer_tick)

lemma single_timer_streams:
  "single_timer (api_stream c s) = single_timer s" "single_timer (on_close c s) = single_timer s"
  "single_timer (connection_lost c s) = single_timer s"
  by (simp_all add: single_timer_def api_stream_def on_close_def connection_lost_def Let_def)

lemma single_timer_webhook:
  "single_timer s \<Longrightarrow> single_timer (snd (notion_webhook secret req s))"
  by (auto simp: notion_webhook_def accept_def single_timer_scheduleReload
      split: option.splits sum.splits bool.splits)
     (simp_all add: single_timer_def)

text \<open>The bound of 200 ms is strict: a second call exactly 200 ms after the first comes
  after the first timeout has run, and there are two broadcasts.\<close>

lemma clock_tick: "clock (tick s) = Suc (clock s)"
  by (simp add: tick_def run_ping_fields run_timeouts_def foldl_reload_fields)

lemma clock_advance: "clock (advance n s) = clock s + n"
  by (induction n arbitrary: s) (simp_all add: clock_tick)

lemma gap_of_200_reloads_twice:
  "reloads (advance 200 (burst [200] (start 0))) = [200, 400]"
proof -
  let ?s1 = "scheduleReload (start 0)"
  let ?s2 = "advance 200 ?s1"
  let ?s3 = "scheduleReload ?s2"
  have i: "single_timer (start 0)" by (rule single_timer_start)
  from scheduleReload_single[OF i]
  have 1: "timeouts ?s1 = [(0, 200)]" "clock ?s1 = 0" "reloads ?s1 = []"
    by (simp_all add: start_def reloads_def)
  from advance_fires[OF 1(1), of 200] 1
  have 2: "reloads ?s2 = [200]" "timeouts ?s2 = []"
    by simp_all
  have c2: "clock ?s2 = 200"
    by (simp add: clock_advance 1)
  have "single_timer ?s2"
    by (simp add: single_timer_def 2)
  from scheduleReload_single[OF this] 2 c2
  have 3: "timeouts ?s3 = [(next_handle ?s2, 400)]" "clock ?s3 = 200" "reloads ?s3 = [200]"
    by simp_all
  from advance_fires[OF 3(1), of 200] 3
  have "reloads (advance 200 ?s3) = [200, 400]"
    by simp
  then show ?thesis
    by (simp add: burst_def)
qed

section \<open>The signature check\<close>

lemma utf8_ascii: "ascii s \<Longrightarrow> utf8 s = map of_char s"
  by (induction s) (simp_all add: ascii_def utf8_def utf8_char_def)

lemma length_utf8_char: "length (utf8_char c) = (if (of_char c :: nat) < 128 then 1 else 2)"
  by (simp add: utf8_char_def Let_def)

lemma length_utf8_ge: "length s \<le> length (utf8 s)"
  by (induction s) (simp_all add: utf8_def length_utf8_char)

lemma length_utf8_eq_iff: "length (utf8 s) = length s \<longleftrightarrow> ascii s"
proof (induction s)
  case Nil
  then show ?case by (simp add: utf8_def ascii_def)
next
  case (Cons c s)
  have "length s \<le> length (utf8 s)" by (rule length_utf8_ge)
  with Cons show ?case
    by (auto simp: utf8_def ascii_def length_utf8_char)
qed

lemma inj_of_char_nat: "map (of_char :: char \<Rightarrow> nat) s = map of_char t \<Longrightarrow> s = t"
  by (rule map_injective) (auto simp: inj_on_def)

lemma hexdigit_ascii: "(of_char (hexdigit n) :: nat) < 128"
proof -
  have "hexdigit n \<in> set ''0123456789abcdef''"
    unfolding hexdigit_def by (rule nth_mem) simp
  then show ?thesis by auto
qed

lemma ascii_hex: "ascii (hex bs)"
  by (induction bs) (simp_all add: hex_def ascii_def hexdigit_ascii)

lemma length_hex: "length (hex bs) = 2 * length bs"
  by (induction bs) (simp_all add: hex_def)

lemma length_shift_state: "length (shift_state t1 t2 st) = length st"
  by (induction t1 t2 st rule: shift_state.induct) simp_all

lemma length_round_step: "length (round_step k w st) = length st"
  by (induction k w st rule: round_step.induct) (simp_all add: length_shift_state)

lemma length_rounds: "length (rounds ks win st) = length st"
  by (induction ks arbitrary: win st) (simp_all add: length_round_step)

lemma length_compress: "length (compress st block) = length st"
  by (simp add: compress_def length_rounds)

lemma length_foldl_compress: "length (foldl compress st bs) = length st"
  by (induction bs arbitrary: st) (simp_all add: length_compress)

lemma length_sha256: "length (sha256 m) = 32"
proof -
  have "length (foldl compress H256 (blocks (pad m))) = 8"
    by (simp add: length_foldl_compress H256_def)
  then obtain a b c d e f g h where "foldl compress H256 (blocks (pad m)) = [a, b, c, d, e, f, g, h]"
    by (auto simp: length_Suc_conv eval_nat_numeral)
  then show ?thesis by (simp add: sha256_def word_bytes_def)
qed

lemma length_hmac_hex: "length (hmac_hex k m) = 64"
  by (simp add: hmac_hex_def length_hex hmac_sha256_def Let_def length_sha256)

lemma ascii_hmac_hex: "ascii (hmac_hex k m)"
  by (simp add: hmac_hex_def ascii_hex)

lemma length_expected: "length (expected k b) = 71"
  by (simp add: expected_def length_hmac_hex)

lemma ascii_expected: "ascii (expected k b)"
  using ascii_hmac_hex[of k "stringify b"] by (simp add: expected_def ascii_def)

lemma calc_body: "body req = Some b \<Longrightarrow> calc k req = Inr (expected k b)"
  by (simp add: calc_def JSON_stringify_def expected_def)

lemma trusted_match:
  assumes "body req = Some b" and "signatureHeader req = expected k b"
  shows "trusted k req = Inr True"
  using assms by (simp add: trusted_def calc_body timingSafeEqual_def)

lemma trusted_length_mismatch:
  assumes "body req = Some b" and "length (signatureHeader req) \<noteq> 71"
  shows "trusted k req = Inr False"
  using assms by (simp add: trusted_def calc_body length_expected)

lemma trusted_ascii_mismatch:
  assumes "body req = Some b" and "ascii (signatureHeader req)"
    and "signatureHeader req \<noteq> expected k b"
  shows "trusted k req = Inr False"
proof (cases "length (signatureHeader req) = 71")
  case False
  with assms(1) show ?thesis by (rule trusted_length_mismatch)
next
  case True
  have "utf8 (signatureHeader req) \<noteq> utf8 (expected k b)"
    using assms(2,3) ascii_expected[of k b] by (auto simp: utf8_ascii dest: inj_of_char_nat)
  moreover have "length (utf8 (signatureHeader req)) = length (utf8 (expected k b))"
    using assms(2) ascii_expected[of k b] True
    by (simp add: utf8_ascii length_expected)
  ultimately show ?thesis
    using assms(1) True by (simp add: trusted_def calc_body timingSafeEqual_def length_expected)
qed

lemma trusted_throws:
  assumes "body req = Some b" and "length (signatureHeader req) = 71"
    and "\<not> ascii (signatureHeader req)"
  shows "trusted k req = Inl RangeError"
proof -
  have "length (utf8 (signatureHeader req)) \<noteq> length (signatureHeader req)"
    using assms(3) by (simp add: length_utf8_eq_iff)
  moreover have "length (utf8 (expected k b)) = 71"
    using ascii_expected[of k b] by (simp add: utf8_ascii length_expected)
  ultimately show ?thesis
    using assms(1,2) by (simp add: trusted_def calc_body timingSafeEqual_def length_expected)
qed

lemma trusted_True_iff:
  assumes "body req = Some b"
  shows "trusted k req = Inr True \<longleftrightarrow> signatureHeader req = expected k b"
proof
  assume t: "trusted k req = Inr True"
  show "signatureHeader req = expected k b"
  proof (rule ccontr)
    assume n: "signatureHeader req \<noteq> expected k b"
    show False
    proof (cases "length (signatureHeader req) = 71")
      case False
      with assms t show False by (simp add: trusted_length_mismatch)
    next
      case True
      show False
      proof (cases "ascii (signatureHeader req)")
        case True
        with assms n t show False by (simp add: trusted_ascii_mismatch)
      next
        case False
        with assms True t show False by (simp add: trusted_throws)
      qed
    qed
  qed
next
  assume "signatureHeader req = expected k b"
  with assms show "trusted k req = Inr True" by (rule trusted_match)
qed

lemma webhook_secret:
  "k \<noteq> [] \<Longrightarrow>
   notion_webhook (Some k) req s =
     (case trusted k req of
        Inl e \<Rightarrow> (\<lparr> status = 500, payload = NotOk \<rparr>, s\<lparr> console := console s @ [ErrorLogged e] \<rparr>)
      | Inr False \<Rightarrow> (\<lparr> status = 202, payload = SignatureMismatch \<rparr>,
                       s\<lparr> console := console s @ [SignatureWarning] \<rparr>)
      | Inr True \<Rightarrow> accept s)"
  by (simp add: notion_webhook_def secret_set_def)

lemma token_with_secret_falls_through:
  "k \<noteq> [] \<Longrightarrow> payload (fst (notion_webhook (Some k) req s)) \<noteq> OkVerification"
  by (simp add: webhook_secret accept_def split: sum.splits bool.splits)

section \<open>Evaluating the middleware\<close>

lemma char_of_eval:
  "char_of (n::nat) = Char (odd n) (odd (n div 2)) (odd (n div 4)) (odd (n div 8))
     (odd (n div 16)) (odd (n div 32)) (odd (n div 64)) (odd (n div 128))"
  by (simp add: char_of_def bit_iff_odd_drop_bit drop_bit_eq_div)

lemmas parse_simps =
  express_json_def JSON_parse_def utf8_def utf8_char_def skip_ws_def is_ws_def parse_int_def
  parse_nat_def is_digit_def digits_value_def hex_value_def simple_escape_def plain_keys_def
  char_of_eval

section \<open>Evaluating the digest\<close>

text \<open>
  The digests of two payloads under the secret \<^verbatim>\<open>s3cret\<close>, computed by rewriting, one
  compression of a block at a time: the two blocks of the padded key, then for each
  payload the block of the inner hash and the block of the outer hash.
\<close>

lemma rotr_eval: "rotr n x = drop_bit n x + push_bit (32 - n) (take_bit n x)"
  by (simp add: rotr_def drop_bit_eq_div take_bit_eq_mod push_bit_eq_mult)

lemma shr_eval: "shr n x = drop_bit n x"
  by (simp add: shr_def drop_bit_eq_div)

lemma add32_eval:
  "add32 x y = (if x + y < 4294967296 then x + y else (x + y - 4294967296) mod 4294967296)"
  by (simp add: add32_def le_mod_geq)

lemmas sha_eval =
  compress_def K256_def H256_def next_word_def ch_def maj_def bsig0_def bsig1_def ssig0_def
  ssig1_def rotr_eval shr_eval add32_eval numeral_xor_num numeral_and_num

lemma compress_ipad:
  "compress H256
     [1157977412, 1396848182, 909522486, 909522486, 909522486, 909522486, 909522486, 909522486,
      909522486, 909522486, 909522486, 909522486, 909522486, 909522486, 909522486, 909522486] =
   [1966384223, 377553025, 3030809176, 2864474685, 3503027754, 3991087758, 2268987000, 2260484374]"
  by (simp add: sha_eval del: xor_numerals and_numerals)

lemma compress_opad:
  "compress H256
     [795819822, 958946396, 1549556828, 1549556828, 1549556828, 1549556828, 1549556828, 1549556828,
      1549556828, 1549556828, 1549556828, 1549556828, 1549556828, 1549556828, 1549556828, 1549556828] =
   [3514664566, 2346807532, 1158600344, 1953363847, 3535902058, 2719316736, 745268135, 232594081]"
  by (simp add: sha_eval del: xor_numerals and_numerals)

lemma compress_inner_spaced:
  "compress [1966384223, 377553025, 3030809176, 2864474685, 3503027754, 3991087758, 2268987000, 2260484374]
     [2065850658, 975188349, 2147483648, 0, 0, 0, 0, 0, 0, 0, 0, 0, 0, 0, 0, 576] =
   [1489518780, 3378139476, 4093434569, 3530648324, 521042238, 1759710745, 2617652953, 2568735572]"
  by (simp add: sha_eval del: xor_numerals and_numerals)

lemma compress_inner_minified:
  "compress [1966384223, 377553025, 3030809176, 2864474685, 3503027754, 3991087758, 2268987000, 2260484374]
     [2065850658, 976321920, 0, 0, 0, 0, 0, 0, 0, 0, 0, 0, 0, 0, 0, 568] =
   [3983150607, 1830657050, 2687388020, 3424741982, 2127035526, 873155520, 107299888, 2969542131]"
  by (simp add: sha_eval del: xor_numerals and_numerals)

lemma compress_outer_spaced:
  "compress [3514664566, 2346807532, 1158600344, 1953363847, 3535902058, 2719316736, 745268135, 232594081]
     [1489518780, 3378139476, 4093434569, 3530648324, 521042238, 1759710745, 2617652953, 2568735572,
      2147483648, 0, 0, 0, 0, 0, 0, 768] =
   [446671724, 3568881098, 2911256819, 3970383785, 616968178, 1329083173, 1324569714, 840251239]"
  by (simp add: sha_eval del: xor_numerals and_numerals)

lemma compress_outer_minified:
  "compress [3514664566, 2346807532, 1158600344, 1953363847, 3535902058, 2719316736, 745268135, 232594081]
     [3983150607, 1830657050, 2687388020, 3424741982, 2127035526, 873155520, 107299888, 2969542131,
      2147483648, 0, 0, 0, 0, 0, 0, 768] =
   [1494279712, 384782388, 657232492, 654776722, 2758132275, 1559032856, 1371381873, 1467961197]"
  by (simp add: sha_eval del: xor_numerals and_numerals)

lemma replicate_eval: "replicate (numeral k) x = x # replicate (pred_numeral k) x"
  by (simp add: numeral_eq_Suc)

lemma hmac_sha256_eval:
  "length key \<le> 64 \<Longrightarrow>
   hmac_sha256 key m =
     sha256 (map (\<lambda>b. b XOR 92) (key @ replicate (64 - length key) 0) @
             sha256 (map (\<lambda>b. b XOR 54) (key @ replicate (64 - length key) 0) @ m))"
  by (simp add: hmac_sha256_def)

lemmas hmac_eval =
  hmac_hex_def hmac_sha256_eval sha256_def pad_def blocks.simps utf8_def utf8_char_def
  word_bytes_def hex_def hexdigit_def replicate_eval

lemma hmac_spaced:
  "hmac_hex ''s3cret'' body_spaced =
     ''1a9fab6cd4b8cdcaad8640f3eca73fa924c62ff24f3833254ef3547232153767''"
  by (simp add: hmac_eval body_spaced_def compress_ipad compress_opad compress_inner_spaced
      compress_outer_spaced)

lemma hmac_minified:
  "hmac_hex ''s3cret'' (stringify (JObj [(''a'', JNum 1)])) =
     ''5910e62016ef5034272c926c27071992a465c2335cecf41851bda071577f4f6d''"
  by (simp add: hmac_eval quote_def escape_char_def show_int_def show_nat_def show_nat_aux.simps
      digit_char_def compress_ipad compress_opad compress_inner_minified compress_outer_minified)

section \<open>Properties of the specification\<close>

text \<open>
  C7. The name of an item is the trimmed text of the first fragment of the title of the
  primary name field \<^verbatim>\<open>item name\<close>, whatever the fallback field \<^verbatim>\<open>Name\<close> holds; the
  title of the fallback field is taken when the primary field has no title, and a record
  with neither title has the empty name. \<^verbatim>\<open>fetchAllItems\<close>, from a store that serves pages
  whose records normalize, returns items: each has a name that is not empty and is the
  item of a record served, and the item of a record served is among them exactly when
  its name is not empty. So a record without the primary field whose fallback field
  gives a name that is not empty is included, under that name. Whatever the store
  answers, every item of a fetch that returns has a name that is not empty.
\<close>

theorem name_resolution:
  "(pageToItem p = Inr it \<and> props = or_else (member p ''properties'') (JObj []) \<longrightarrow>
      (opt_prop (member props ''item name'') ''title'' = Some (JArr (frag # rest)) \<and>
       member frag ''plain_text'' = Some (JStr t) \<longrightarrow> name it = trim t) \<and>
      (\<not> truthy (opt_prop (member props ''item name'') ''title'') \<and>
       opt_prop (member props ''Name'') ''title'' = Some (JArr (frag # rest)) \<and>
       member frag ''plain_text'' = Some (JStr t) \<longrightarrow> name it = trim t) \<and>
      (\<not> truthy (opt_prop (member props ''item name'') ''title'') \<and>
       \<not> truthy (opt_prop (member props ''Name'') ''title'') \<longrightarrow> name it = [])) \<and>
   (serves query db None rs \<and>
    list_all2 (\<lambda>r ps. member r ''results'' = Some (JArr ps)) rs pss \<and>
    map_err pageToItem (concat pss) = Inr xs \<longrightarrow>
      (\<exists>items. fetchAllItems query db = Some (Inr items) \<and>
         (\<forall>x\<in>set items. name x \<noteq> [] \<and> (\<exists>q\<in>set (concat pss). pageToItem q = Inr x)) \<and>
         (\<forall>q\<in>set (concat pss). \<exists>x. pageToItem q = Inr x \<and> (x \<in> set items \<longleftrightarrow> name x \<noteq> [])) \<and>
         (\<forall>q\<in>set (concat pss). \<forall>qprops f fs s.
            member q ''properties'' = Some qprops \<and> member qprops ''item name'' = None \<and>
            opt_prop (member qprops ''Name'') ''title'' = Some (JArr (f # fs)) \<and>
            member f ''plain_text'' = Some (JStr s) \<and> trim s \<noteq> [] \<longrightarrow>
              (\<exists>x\<in>set items. pageToItem q = Inr x \<and> name x = trim s)))) \<and>
   (fetchAllItems query db = Some (Inr returned) \<longrightarrow> (\<forall>x\<in>set returned. name x \<noteq> []))"
proof (intro conjI impI; (elim conjE)?)
  assume p: "pageToItem p = Inr it" and props: "props = or_else (member p ''properties'') (JObj [])"
  note nm = pageToItem_title[OF p props refl]
  {
    assume "opt_prop (member props ''item name'') ''title'' = Some (JArr (frag # rest))"
      and "member frag ''plain_text'' = Some (JStr t)"
    with nm show "name it = trim t"
      by (simp add: resolved_name_first)
  next
    assume "\<not> truthy (opt_prop (member props ''item name'') ''title'')"
      and "opt_prop (member props ''Name'') ''title'' = Some (JArr (frag # rest))"
      and "member frag ''plain_text'' = Some (JStr t)"
    with nm show "name it = trim t"
      by (cases "opt_prop (member props ''item name'') ''title''") (simp_all add: resolved_name_first)
  next
    assume "\<not> truthy (opt_prop (member props ''item name'') ''title'')"
      and "\<not> truthy (opt_prop (member props ''Name'') ''title'')"
    with nm show "name it = []"
      by (cases "opt_prop (member props ''item name'') ''title''";
          cases "opt_prop (member props ''Name'') ''title''")
        (simp_all add: resolved_name_def trim_def)
  }
next
  assume s: "serves query db None rs"
    and r: "list_all2 (\<lambda>r ps. member r ''results'' = Some (JArr ps)) rs pss"
    and n: "map_err pageToItem (concat pss) = Inr xs"
  let ?items = "filter (\<lambda>x. name x \<noteq> []) xs"
  have f: "fetchAllItems query db = Some (Inr ?items)"
    using s r n by (rule fetchAllItems_serves)
  have xs: "set xs = {y. \<exists>q\<in>set (concat pss). pageToItem q = Inr y}"
    using n by (rule map_err_set)
  have 1: "\<forall>x\<in>set ?items. name x \<noteq> [] \<and> (\<exists>q\<in>set (concat pss). pageToItem q = Inr x)"
    using xs by auto
  have 2: "\<forall>q\<in>set (concat pss). \<exists>x. pageToItem q = Inr x \<and> (x \<in> set ?items \<longleftrightarrow> name x \<noteq> [])"
  proof
    fix q assume q: "q \<in> set (concat pss)"
    from map_err_mem[OF n q] obtain x where x: "pageToItem q = Inr x" and "x \<in> set xs"
      by blast
    then show "\<exists>x. pageToItem q = Inr x \<and> (x \<in> set ?items \<longleftrightarrow> name x \<noteq> [])" by auto
  qed
  have 3: "\<forall>q\<in>set (concat pss). \<forall>qprops f fs s.
      member q ''properties'' = Some qprops \<and> member qprops ''item name'' = None \<and>
      opt_prop (member qprops ''Name'') ''title'' = Some (JArr (f # fs)) \<and>
      member f ''plain_text'' = Some (JStr s) \<and> trim s \<noteq> [] \<longrightarrow>
        (\<exists>x\<in>set ?items. pageToItem q = Inr x \<and> name x = trim s)"
  proof (intro ballI allI impI)
    fix q qprops f fs s
    assume q: "q \<in> set (concat pss)"
      and a: "member q ''properties'' = Some qprops \<and> member qprops ''item name'' = None \<and>
        opt_prop (member qprops ''Name'') ''title'' = Some (JArr (f # fs)) \<and>
        member f ''plain_text'' = Some (JStr s) \<and> trim s \<noteq> []"
    from 2 q obtain x where x: "pageToItem q = Inr x" and m: "x \<in> set ?items \<longleftrightarrow> name x \<noteq> []"
      by blast
    from a have obj: "or_else (member q ''properties'') (JObj []) = qprops"
      by (cases qprops) auto
    from pageToItem_title[OF x obj[symmetric] refl] a have "name x = trim s"
      by (simp add: resolved_name_first)
    with a m x show "\<exists>x\<in>set ?items. pageToItem q = Inr x \<and> name x = trim s"
      by auto
  qed
  from f 1 2 3 show "\<exists>items. fetchAllItems query db = Some (Inr items) \<and>
         (\<forall>x\<in>set items. name x \<noteq> [] \<and> (\<exists>q\<in>set (concat pss). pageToItem q = Inr x)) \<and>
         (\<forall>q\<in>set (concat pss). \<exists>x. pageToItem q = Inr x \<and> (x \<in> set items \<longleftrightarrow> name x \<noteq> [])) \<and>
         (\<forall>q\<in>set (concat pss). \<forall>qprops f fs s.
            member q ''properties'' = Some qprops \<and> member qprops ''item name'' = None \<and>
            opt_prop (member qprops ''Name'') ''title'' = Some (JArr (f # fs)) \<and>
            member f ''plain_text'' = Some (JStr s) \<and> trim s \<noteq> [] \<longrightarrow>
              (\<exists>x\<in>set items. pageToItem q = Inr x \<and> name x = trim s))"
    by blast
next
  assume "fetchAllItems query db = Some (Inr returned)"
  then show "\<forall>x\<in>set returned. name x \<noteq> []"
    by (rule fetchAllItems_names)
qed


theorem name_resolution_witness:
  "pageToItem record_b = Inr (plain_item ''b'' ''Beta'') \<and>
   member record_b ''properties'' = Some (titled ''Name'' [''Beta'']) \<and>
   member (titled ''Name'' [''Beta'']) ''item name'' = None \<and>
   opt_prop (member (titled ''Name'' [''Beta'']) ''Name'') ''title'' =
     Some (JArr [JObj [(''plain_text'', JStr ''Beta'')]]) \<and>
   serves two_pages None None [page_one, page_two] \<and>
   list_all2 (\<lambda>r ps. member r ''results'' = Some (JArr ps)) [page_one, page_two]
     [[record_a, record_c], [record_b]] \<and>
   map_err pageToItem (concat [[record_a, record_c], [record_b]]) =
     Inr [plain_item ''a'' ''Alpha'', plain_item ''c'' [], plain_item ''b'' ''Beta''] \<and>
   name (plain_item ''b'' ''Beta'') = ''Beta'' \<and>
   (\<exists>items. fetchAllItems two_pages None = Some (Inr items) \<and>
      plain_item ''b'' ''Beta'' \<in> set items \<and> plain_item ''c'' [] \<notin> set items) \<and>
   fetchAllItems two_pages None =
     Some (Inr [plain_item ''a'' ''Alpha'', plain_item ''b'' ''Beta'']) \<and>
   name (plain_item ''a'' ''Alpha'') \<noteq> [] \<and> name (plain_item ''b'' ''Beta'') \<noteq> []"
proof -
  let ?b = "plain_item ''b'' ''Beta''"
  let ?props = "titled ''Name'' [''Beta'']"
  let ?frag = "JObj [(''plain_text'', JStr ''Beta'')]"
  have b: "pageToItem record_b = Inr ?b"
    by (rule pageToItem_record_b)
  have c: "pageToItem record_c = Inr (plain_item ''c'' [])"
    by (rule pageToItem_record_c)
  have pr: "member record_b ''properties'' = Some ?props"
    by (simp add: record_b_def)
  have props: "?props = or_else (member record_b ''properties'') (JObj [])"
    by (simp add: record_b_def titled_def)
  have lack: "member ?props ''item name'' = None"
    by (simp add: titled_def)
  have fb: "opt_prop (member ?props ''Name'') ''title'' = Some (JArr [?frag])"
    by (simp add: titled_def)
  have tx: "member ?frag ''plain_text'' = Some (JStr ''Beta'')"
    by simp
  have tr: "trim ''Beta'' = ''Beta''"
    by (simp add: trim_def is_space_def)
  note s = serves_two_pages[of None] and r = results_two_pages and n = normalize_records
  note inst = name_resolution[of record_b "?b" "?props" "?frag" "[]" "''Beta''" two_pages None
      "[page_one, page_two]" "[[record_a, record_c], [record_b]]"
      "[plain_item ''a'' ''Alpha'', plain_item ''c'' [], plain_item ''b'' ''Beta'']"
      "[plain_item ''a'' ''Alpha'', plain_item ''b'' ''Beta'']"]
  have t: "fetchAllItems two_pages None =
      Some (Inr [plain_item ''a'' ''Alpha'', plain_item ''b'' ''Beta''])"
    by (rule fetchAllItems_two_pages)
  from inst t have "\<forall>x\<in>set [plain_item ''a'' ''Alpha'', plain_item ''b'' ''Beta'']. name x \<noteq> []"
    by blast
  then have all: "name (plain_item ''a'' ''Alpha'') \<noteq> []" "name (plain_item ''b'' ''Beta'') \<noteq> []"
    by simp_all
  from inst b props lack fb tx tr have nm: "name ?b = ''Beta''"
    by simp
  from inst s r n obtain items where f: "fetchAllItems two_pages None = Some (Inr items)"
    and incl: "\<forall>q\<in>set (concat [[record_a, record_c], [record_b]]).
        \<exists>x. pageToItem q = Inr x \<and> (x \<in> set items \<longleftrightarrow> name x \<noteq> [])"
    and fall: "\<forall>q\<in>set (concat [[record_a, record_c], [record_b]]). \<forall>qprops f fs s.
        member q ''properties'' = Some qprops \<and> member qprops ''item name'' = None \<and>
        opt_prop (member qprops ''Name'') ''title'' = Some (JArr (f # fs)) \<and>
        member f ''plain_text'' = Some (JStr s) \<and> trim s \<noteq> [] \<longrightarrow>
          (\<exists>x\<in>set items. pageToItem q = Inr x \<and> name x = trim s)"
    by blast
  from fall pr lack fb tx tr have "\<exists>x\<in>set items. pageToItem record_b = Inr x \<and> name x = trim ''Beta''"
    by simp
  with b have 1: "?b \<in> set items" by auto
  from incl c have 2: "plain_item ''c'' [] \<notin> set items"
    by (simp add: plain_item_def)
  from f 1 2 have "\<exists>items. fetchAllItems two_pages None = Some (Inr items) \<and>
      plain_item ''b'' ''Beta'' \<in> set items \<and> plain_item ''c'' [] \<notin> set items"
    by blast
  with b pr lack fb s r n nm t all show ?thesis by (intro conjI)
qed

text \<open>
  C8. \<^verbatim>\<open>fetchAllItems\<close> asks for pages of 100 records, the first without a cursor and
  each later one with the \<^verbatim>\<open>next_cursor\<close> of the response before it. It goes on exactly
  as long as a response has a truthy \<^verbatim>\<open>has_more\<close> and a truthy \<^verbatim>\<open>next_cursor\<close>, and
  returns the normalized records that have a name, in the order of the pages and within
  a page in the order of its records.
\<close>

theorem fetchAll_page_order:
  assumes "serves query db None rs"
    and "list_all2 (\<lambda>r ps. member r ''results'' = Some (JArr ps)) rs pss"
    and "map_err pageToItem (concat pss) = Inr xs"
  shows "fetchAllItems query db = Some (Inr (filter (\<lambda>x. name x \<noteq> []) xs))"
  using assms by (rule fetchAllItems_serves)

theorem fetchAll_page_order_witness:
  "serves strict_store None None [page_one, page_last] \<and>
   list_all2 (\<lambda>r ps. member r ''results'' = Some (JArr ps)) [page_one, page_last]
     [[record_a, record_c], [record_b]] \<and>
   map_err pageToItem (concat [[record_a, record_c], [record_b]]) =
     Inr [plain_item ''a'' ''Alpha'', plain_item ''c'' [], plain_item ''b'' ''Beta''] \<and>
   fetchAllItems strict_store None =
     Some (Inr [plain_item ''a'' ''Alpha'', plain_item ''b'' ''Beta''])"
proof -
  note s = serves_strict_store[of None] and r = results_strict_store and n = normalize_records
  from fetchAll_page_order[OF s r n]
  have "fetchAllItems strict_store None =
      Some (Inr [plain_item ''a'' ''Alpha'', plain_item ''b'' ''Beta''])"
    by (simp add: plain_item_def)
  with s r n show ?thesis by (intro conjI)
qed

text \<open>
  C6. When the request for a page fails, after any number of pages fetched,
  \<^verbatim>\<open>fetchAllItems\<close> ends with that error and returns no item, and the items endpoint
  answers 500 with the error; when it succeeds the endpoint answers 200 with the items.
\<close>

theorem fetch_failure_aborts:
  "(aborts query db None rs e \<longrightarrow>
      fetchAllItems query db = Some (Inl e) \<and>
      api_items query db = Some (\<lparr> status = 500, payload = QueryFailed e \<rparr>, [ErrorLogged e])) \<and>
   (fetchAllItems query db = Some (Inr items) \<longrightarrow>
      api_items query db = Some (\<lparr> status = 200, payload = Items items \<rparr>, []))"
  by (auto simp: fetchAllItems_def api_items_def dest: fetch_loop_aborts[where acc = "[]"])

theorem fetch_failure_aborts_witness:
  "aborts broken_store None None [page_one] (Rejected (Some (JStr ''timeout''))) \<and>
   api_items broken_store None =
     Some (\<lparr> status = 500, payload = QueryFailed (Rejected (Some (JStr ''timeout''))) \<rparr>,
           [ErrorLogged (Rejected (Some (JStr ''timeout'')))]) \<and>
   api_items two_pages None =
     Some (\<lparr> status = 200,
             payload = Items [plain_item ''a'' ''Alpha'', plain_item ''b'' ''Beta''] \<rparr>, [])"
  using fetch_failure_aborts[of broken_store None "[page_one]" "Rejected (Some (JStr ''timeout''))"]
    fetch_failure_aborts[of two_pages None _ _ "[plain_item ''a'' ''Alpha'', plain_item ''b'' ''Beta'']"]
    aborts_broken_store[of None] fetchAllItems_two_pages
  by simp

text \<open>
  C9. The name of a normalized record is the trimmed text of the first fragment of the
  title chosen, whatever the fragments after it: they are not read. When the title has
  no fragment, or its first fragment has no text, the name is empty and the item is not
  among those \<^verbatim>\<open>fetchAllItems\<close> returns from a store that serves the record. The field
  \<^verbatim>\<open>upper\<close>, by contrast, is the texts of all the fragments of its rich text joined.
\<close>

theorem first_fragment_only:
  assumes "pageToItem p = Inr it"
    and "props = or_else (member p ''properties'') (JObj [])"
    and "title = or_else (opt_prop (member props ''item name'') ''title'')
                   (or_else (opt_prop (member props ''Name'') ''title'') (JArr []))"
  shows "(title = JArr (frag # rest) \<and> member frag ''plain_text'' = Some (JStr t) \<longrightarrow>
            name it = trim t) \<and>
         (title = JArr [] \<or>
          title = JArr (frag # rest) \<and> \<not> truthy (opt_prop (Some frag) ''plain_text'') \<longrightarrow>
            name it = [] \<and>
            (serves query db None rs \<and>
             list_all2 (\<lambda>r ps. member r ''results'' = Some (JArr ps)) rs pss \<and>
             map_err pageToItem (concat pss) = Inr xs \<and> p \<in> set (concat pss) \<longrightarrow>
               (\<exists>items. fetchAllItems query db = Some (Inr items) \<and> it \<notin> set items))) \<and>
         (opt_prop (member props ''upper'') ''rich_text'' = Some (JArr frs) \<and>
          list_all2 (\<lambda>f s. member f ''plain_text'' = Some (JStr s)) frs ts \<longrightarrow>
            upper it = (if concat ts = [] then JNull else JStr (concat ts)))"
proof (intro conjI impI)
  note nm = pageToItem_title[OF assms]
  {
    assume "title = JArr (frag # rest) \<and> member frag ''plain_text'' = Some (JStr t)"
    with nm show "name it = trim t"
      by (simp add: resolved_name_first)
  next
    assume "title = JArr [] \<or>
      title = JArr (frag # rest) \<and> \<not> truthy (opt_prop (Some frag) ''plain_text'')"
    then have "resolved_name title = Inr []"
      by (auto simp: resolved_name_empty_first) (simp add: resolved_name_def trim_def)
    with nm show e: "name it = []"
      by simp
    assume "serves query db None rs \<and>
      list_all2 (\<lambda>r ps. member r ''results'' = Some (JArr ps)) rs pss \<and>
      map_err pageToItem (concat pss) = Inr xs \<and> p \<in> set (concat pss)"
    then have "fetchAllItems query db = Some (Inr (filter (\<lambda>x. name x \<noteq> []) xs))"
      using fetchAllItems_serves[of query db rs pss xs] by blast
    with e show "\<exists>items. fetchAllItems query db = Some (Inr items) \<and> it \<notin> set items"
      by auto
  next
    assume a: "opt_prop (member props ''upper'') ''rich_text'' = Some (JArr frs) \<and>
      list_all2 (\<lambda>f s. member f ''plain_text'' = Some (JStr s)) frs ts"
    from pageToItem_upper[OF assms(1,2)] obtain up
      where "richToText (opt_prop (member props ''upper'') ''rich_text'') = Inr up"
        and "upper it = text_or_null up"
      by blast
    with a richToText_join[of frs ts]
    show "upper it = (if concat ts = [] then JNull else JStr (concat ts))"
      by (simp add: text_or_null_def)
  }
qed

theorem first_fragment_only_witness:
  "pageToItem record_d = Inr ((plain_item ''d'' ''Gamma'') \<lparr> upper := JStr ''Alpha'' \<rparr>) \<and>
   name ((plain_item ''d'' ''Gamma'') \<lparr> upper := JStr ''Alpha'' \<rparr>) = trim '' Gamma '' \<and>
   upper ((plain_item ''d'' ''Gamma'') \<lparr> upper := JStr ''Alpha'' \<rparr>) = JStr (concat [''Al'', ''pha'']) \<and>
   pageToItem record_c = Inr (plain_item ''c'' []) \<and>
   serves two_pages None None [page_one, page_two] \<and>
   list_all2 (\<lambda>r ps. member r ''results'' = Some (JArr ps)) [page_one, page_two]
     [[record_a, record_c], [record_b]] \<and>
   map_err pageToItem (concat [[record_a, record_c], [record_b]]) =
     Inr [plain_item ''a'' ''Alpha'', plain_item ''c'' [], plain_item ''b'' ''Beta''] \<and>
   record_c \<in> set (concat [[record_a, record_c], [record_b]]) \<and>
   (\<exists>items. fetchAllItems two_pages None = Some (Inr items) \<and> plain_item ''c'' [] \<notin> set items)"
proof -
  let ?d = "(plain_item ''d'' ''Gamma'') \<lparr> upper := JStr ''Alpha'' \<rparr>"
  let ?g = "JObj [(''plain_text'', JStr '' Gamma '')]"
  let ?e = "JObj [(''plain_text'', JStr [])]"
  let ?gs = "[JObj [(''plain_text'', JStr ''Gamma'')]]"
  let ?frs = "[JObj [(''plain_text'', JStr ''Al'')], JObj [(''plain_text'', JStr ''pha'')]]"
  have d: "pageToItem record_d = Inr ?d"
    by (rule pageToItem_record_d)
  have pd: "the (member record_d ''properties'') = or_else (member record_d ''properties'') (JObj [])"
    by (simp add: record_d_def)
  have td: "JArr [?g, JObj [(''plain_text'', JStr ''Delta'')]] =
      or_else (opt_prop (member (the (member record_d ''properties'')) ''item name'') ''title'')
        (or_else (opt_prop (member (the (member record_d ''properties'')) ''Name'') ''title'') (JArr []))"
    by (simp add: record_d_def)
  have ud: "opt_prop (member (the (member record_d ''properties'')) ''upper'') ''rich_text'' =
      Some (JArr ?frs)"
    by (simp add: record_d_def)
  have c: "pageToItem record_c = Inr (plain_item ''c'' [])"
    by (rule pageToItem_record_c)
  have pc: "titled ''item name'' [[], ''Gamma''] = or_else (member record_c ''properties'') (JObj [])"
    by (simp add: record_c_def titled_def)
  have tc: "JArr (?e # ?gs) =
      or_else (opt_prop (member (titled ''item name'' [[], ''Gamma'']) ''item name'') ''title'')
        (or_else (opt_prop (member (titled ''item name'' [[], ''Gamma'']) ''Name'') ''title'') (JArr []))"
    by (simp add: titled_def)
  note s = serves_two_pages[of None] and r = results_two_pages and n = normalize_records
  have m: "record_c \<in> set (concat [[record_a, record_c], [record_b]])"
    by simp
  have tg: "member ?g ''plain_text'' = Some (JStr '' Gamma '')"
    by simp
  have fr: "list_all2 (\<lambda>f s. member f ''plain_text'' = Some (JStr s)) ?frs [''Al'', ''pha'']"
    by simp
  have ne: "\<not> truthy (opt_prop (Some ?e) ''plain_text'')"
    by simp
  note thd = first_fragment_only[OF d pd td, of "?g" "[JObj [(''plain_text'', JStr ''Delta'')]]"
      "'' Gamma ''" two_pages None "[page_one, page_two]" "[[record_a, record_c], [record_b]]"
      "[plain_item ''a'' ''Alpha'', plain_item ''c'' [], plain_item ''b'' ''Beta'']"
      "?frs" "[''Al'', ''pha'']"]
  from thd tg have 1: "name ?d = trim '' Gamma ''"
    by blast
  from thd ud fr
  have "upper ?d = (if concat [''Al'', ''pha''] = [] then JNull else JStr (concat [''Al'', ''pha'']))"
    by blast
  then have 2: "upper ?d = JStr (concat [''Al'', ''pha''])"
    by simp
  note thc = first_fragment_only[OF c pc tc, of "?e" "?gs" "[]" two_pages None "[page_one, page_two]"
      "[[record_a, record_c], [record_b]]"
      "[plain_item ''a'' ''Alpha'', plain_item ''c'' [], plain_item ''b'' ''Beta'']" "[]" "[]"]
  from thc ne s r n m
  have 3: "\<exists>items. fetchAllItems two_pages None = Some (Inr items) \<and> plain_item ''c'' [] \<notin> set items"
    by blast
  from d 1 2 c s r n m 3 show ?thesis by (intro conjI)
qed

text \<open>
  C2. \<^verbatim>\<open>sseBroadcast\<close> sends the event to every stream in the set; a stream takes the
  two chunks of the event unless its connection is gone. The set itself is left as it
  was: a stream that does not take the write stays in it (only the listener of the
  \<^verbatim>\<open>close\<close> event removes a stream). Nothing is thrown for such a stream.
\<close>

theorem broadcast_reaches_every_client:
  assumes "distinct (sseClients s)"
  shows "sseClients (sseBroadcast ev d s) = sseClients s \<and>
         (\<forall>c. conns (sseBroadcast ev d s) c =
                (if c \<in> set (sseClients s) then sseSend (conns s c) ev d else conns s c)) \<and>
         (\<forall>r. written (sseSend r ev d) =
                (if destroyed r then written r
                 else written r @ [''event: '' @ ev @ [CHR 0x0A],
                                   ''data: '' @ stringify d @ [CHR 0x0A, CHR 0x0A]]))"
  using assms
  by (simp add: sseBroadcast_fields sseBroadcast_conns sseSend_def res_write_def)

theorem broadcast_reaches_every_client_witness:
  "distinct (sseClients two_clients) \<and>
   sseClients (sseBroadcast ''ping'' JNull two_clients) = [1, 2] \<and>
   written (conns (sseBroadcast ''ping'' JNull two_clients) 2) =
     written (conns two_clients 2) @
     [''event: ping'' @ [CHR 0x0A], ''data: null'' @ [CHR 0x0A, CHR 0x0A]]"
proof -
  have c: "sseClients two_clients = [1, 2]"
    by (simp add: two_clients_def connection_lost_def api_stream_def start_def Let_def)
  have a: "\<not> destroyed (conns two_clients 2)"
    by (simp add: two_clients_def connection_lost_def api_stream_def start_def Let_def
        sseSend_def res_write_def sseHeaders_def setHeader_def)
  have d: "distinct (sseClients two_clients)"
    by (simp add: c)
  from broadcast_reaches_every_client[OF d, of "''ping''" JNull] a c show ?thesis
    by simp
qed

theorem dead_client_stays_subscribed:
  "destroyed (conns two_clients 1) \<and>
   written (conns (sseBroadcast ''reload'' (JObj []) two_clients) 1) =
     written (conns two_clients 1) \<and>
   sseClients (sseBroadcast ''reload'' (JObj []) two_clients) = [1, 2]"
proof -
  have c: "sseClients two_clients = [1, 2]"
    by (simp add: two_clients_def connection_lost_def api_stream_def start_def Let_def)
  have a: "destroyed (conns two_clients 1)"
    by (simp add: two_clients_def connection_lost_def)
  have d: "distinct (sseClients two_clients)"
    by (simp add: c)
  from a c show ?thesis
    by (simp add: sseBroadcast_fields sseBroadcast_conns[OF d] sseSend_def res_write_def)
qed

text \<open>
  C3. A call of \<^verbatim>\<open>scheduleReload\<close> cancels the pending timeout and starts a new one
  of 200 ms. A burst of calls, each less than 200 ms after the one before, gives one
  \<^verbatim>\<open>reload\<close> broadcast and no more: nothing is broadcast until 200 ms after the last
  call, and the one event is broadcast at that time. Time is counted in whole
  milliseconds, and a timeout runs at the millisecond it is due.
\<close>

theorem burst_one_reload:
  assumes "single_timer s" and "\<forall>g\<in>set gaps. g < 200"
  shows "timeouts (scheduleReload s) = [(next_handle s, clock s + 200)] \<and>
         reloadTimer (scheduleReload s) = Some (next_handle s) \<and>
         reloads (advance n (burst gaps s)) =
           (if n < 200 then reloads s else reloads s @ [clock s + sum_list gaps + 200])"
proof -
  from burst_pending[OF assms] obtain h where
    p: "timeouts (burst gaps s) = [(h, clock s + sum_list gaps + 200)]"
      "clock (burst gaps s) = clock s + sum_list gaps" "reloads (burst gaps s) = reloads s"
    by auto
  have r: "reloads (advance n (burst gaps s)) =
      (if n < 200 then reloads s else reloads s @ [clock s + sum_list gaps + 200])"
  proof (cases "n < 200")
    case True
    then have "\<forall>t\<in>set (timeouts (burst gaps s)). clock (burst gaps s) + n < snd t"
      using p by simp
    from advance_waiting[OF this] p True show ?thesis by simp
  next
    case False
    then have "clock (burst gaps s) < clock s + sum_list gaps + 200"
      "clock s + sum_list gaps + 200 \<le> clock (burst gaps s) + n"
      using p by simp_all
    from advance_fires[OF p(1) this] p False show ?thesis by simp
  qed
  from scheduleReload_single[OF assms(1)] r show ?thesis by simp
qed

theorem burst_one_reload_witness:
  "single_timer (start 0) \<and>
   timeouts (scheduleReload (start 0)) = [(0, 200)] \<and>
   reloads (advance 199 (burst [50, 50] (start 0))) = [] \<and>
   reloads (advance 1000 (burst [50, 50] (start 0))) = [300]"
proof -
  have s: "single_timer (start 0)"
    by (simp add: single_timer_def start_def)
  have g: "\<forall>g\<in>set [50, 50 :: nat]. g < 200"
    by simp
  from burst_one_reload[OF s g, of 199] burst_one_reload[OF s g, of 1000] s show ?thesis
    by (simp add: reloads_def start_def)
qed

text \<open>
  C1. With a secret configured, the handler computes the HMAC-SHA256 under the secret of
  \<^verbatim>\<open>JSON.stringify(req.body)\<close>, the minified text of the parsed body and not the bytes
  received. A request whose signature header is \<^verbatim>\<open>sha256=\<close> followed by the hexadecimal
  digest of that text is answered 200 \<^verbatim>\<open>{ok: true}\<close>, and a reload is scheduled.
\<close>

theorem webhook_accepts_signed_payload:
  assumes "k \<noteq> []" and "body req = Some b"
    and "signature req = Some (''sha256='' @ hmac_hex k (stringify b))"
  shows "calc k req = Inr (''sha256='' @ hmac_hex k (stringify b)) \<and>
         notion_webhook (Some k) req s = (\<lparr> status = 200, payload = Ok \<rparr>, scheduleReload s)"
proof -
  have "signatureHeader req = expected k b"
    using assms(3) by (simp add: signatureHeader_def expected_def)
  with assms(2) have "trusted k req = Inr True"
    by (rule trusted_match)
  with assms(1,2) show ?thesis
    by (simp add: webhook_secret accept_def calc_body expected_def)
qed

theorem webhook_accepts_signed_payload_witness:
  "notion_webhook (Some ''s3cret'')
     \<lparr> signature = Some (''sha256='' @ hmac_hex ''s3cret'' (stringify (JObj [(''a'', JNum 1)]))),
       body = Some (JObj [(''a'', JNum 1)]) \<rparr> (start 0) =
   (\<lparr> status = 200, payload = Ok \<rparr>, scheduleReload (start 0))"
  using webhook_accepts_signed_payload[of "''s3cret''"
      "\<lparr> signature = Some (''sha256='' @ hmac_hex ''s3cret'' (stringify (JObj [(''a'', JNum 1)]))),
         body = Some (JObj [(''a'', JNum 1)]) \<rparr>" "JObj [(''a'', JNum 1)]" "start 0"]
  by simp

text \<open>
  C1 as the specification words it, with the digest over the exact bytes received,
  fails on the body \<^verbatim>\<open>{"a": 1}\<close>: the middleware parses it, the handler signs the
  minified text \<^verbatim>\<open>{"a":1}\<close>, and the request that carries the digest of the bytes
  received is answered 202.
\<close>

theorem exact_bytes_signature_rejected:
  "express_json (utf8 body_spaced) = Some (JObj [(''a'', JNum 1)]) \<and>
   hmac_hex ''s3cret'' body_spaced =
     ''1a9fab6cd4b8cdcaad8640f3eca73fa924c62ff24f3833254ef3547232153767'' \<and>
   calc ''s3cret'' \<lparr> signature = Some (''sha256='' @ hmac_hex ''s3cret'' body_spaced),
                     body = Some (JObj [(''a'', JNum 1)]) \<rparr> =
     Inr ''sha256=5910e62016ef5034272c926c27071992a465c2335cecf41851bda071577f4f6d'' \<and>
   notion_webhook (Some ''s3cret'')
     \<lparr> signature = Some (''sha256='' @ hmac_hex ''s3cret'' body_spaced),
       body = Some (JObj [(''a'', JNum 1)]) \<rparr> (start 0) =
   (\<lparr> status = 202, payload = SignatureMismatch \<rparr>, (start 0)\<lparr> console := [SignatureWarning] \<rparr>)"
proof -
  let ?b = "JObj [(''a'', JNum 1)]"
  let ?req = "\<lparr> signature = Some (''sha256='' @ hmac_hex ''s3cret'' body_spaced), body = Some ?b \<rparr>"
  have p: "express_json (utf8 body_spaced) = Some ?b"
    by (simp add: body_spaced_def parse_simps)
  have e: "expected ''s3cret'' ?b =
      ''sha256=5910e62016ef5034272c926c27071992a465c2335cecf41851bda071577f4f6d''"
    unfolding expected_def hmac_minified by simp
  have h: "signatureHeader ?req =
      ''sha256=1a9fab6cd4b8cdcaad8640f3eca73fa924c62ff24f3833254ef3547232153767''"
    unfolding signatureHeader_def hmac_spaced by simp
  have c: "calc ''s3cret'' ?req =
      Inr ''sha256=5910e62016ef5034272c926c27071992a465c2335cecf41851bda071577f4f6d''"
    using calc_body[of ?req ?b "''s3cret''"] e by simp
  have "trusted ''s3cret'' ?req = Inr False"
  proof (rule trusted_ascii_mismatch[where b = ?b])
    show "body ?req = Some ?b" by simp
    show "ascii (signatureHeader ?req)" unfolding h by (simp add: ascii_def)
    show "signatureHeader ?req \<noteq> expected ''s3cret'' ?b" unfolding h e by simp
  qed
  then have w: "notion_webhook (Some ''s3cret'') ?req (start 0) =
      (\<lparr> status = 202, payload = SignatureMismatch \<rparr>, (start 0)\<lparr> console := [SignatureWarning] \<rparr>)"
    by (simp add: webhook_secret start_def)
  from p hmac_spaced c w show ?thesis by blast
qed

text \<open>
  C4. With a secret configured, a request whose signature header is not the digest
  \<open>c\<close> that the handler computes from the parsed body is never accepted: the response is
  not 200 \<^verbatim>\<open>{ok: true}\<close>, and the state changes by one line on the console only, so that
  no reload is scheduled. When the header is absent, or shorter or longer than the
  digest, or made of ASCII characters only, the response is 202
  \<^verbatim>\<open>{ok: false, reason: 'signature_mismatch'}\<close> and nothing is thrown.
\<close>

theorem signature_mismatch_rejected:
  assumes "k \<noteq> []" and "calc k req = Inr c" and "signatureHeader req \<noteq> c"
  shows "fst (notion_webhook (Some k) req s) \<noteq> \<lparr> status = 200, payload = Ok \<rparr> \<and>
         (\<exists>l. snd (notion_webhook (Some k) req s) = s\<lparr> console := console s @ [l] \<rparr>) \<and>
         (length (signatureHeader req) \<noteq> length c \<or> ascii (signatureHeader req) \<longrightarrow>
            notion_webhook (Some k) req s =
              (\<lparr> status = 202, payload = SignatureMismatch \<rparr>,
               s\<lparr> console := console s @ [SignatureWarning] \<rparr>))"
proof -
  from assms(2) obtain b where b: "body req = Some b" and c: "c = expected k b"
    by (auto simp: calc_def JSON_stringify_def expected_def split: option.splits)
  have n: "trusted k req \<noteq> Inr True"
    using b c assms(3) by (simp add: trusted_True_iff)
  have 1: "fst (notion_webhook (Some k) req s) \<noteq> \<lparr> status = 200, payload = Ok \<rparr>"
    using assms(1) n by (simp add: webhook_secret split: sum.splits bool.splits)
  have 2: "\<exists>l. snd (notion_webhook (Some k) req s) = s\<lparr> console := console s @ [l] \<rparr>"
    using assms(1) n by (auto simp: webhook_secret split: sum.splits bool.splits)
  have 3: "notion_webhook (Some k) req s =
      (\<lparr> status = 202, payload = SignatureMismatch \<rparr>, s\<lparr> console := console s @ [SignatureWarning] \<rparr>)"
    if "length (signatureHeader req) \<noteq> length c \<or> ascii (signatureHeader req)"
  proof -
    have "trusted k req = Inr False"
      using that b c assms(3)
      by (auto simp: length_expected intro: trusted_length_mismatch trusted_ascii_mismatch)
    with assms(1) show ?thesis by (simp add: webhook_secret)
  qed
  from 1 2 3 show ?thesis by blast
qed

theorem signature_mismatch_rejected_witness:
  "calc ''s3cret'' \<lparr> signature = None, body = Some (JObj []) \<rparr> =
     Inr (''sha256='' @ hmac_hex ''s3cret'' ''{}'') \<and>
   notion_webhook (Some ''s3cret'') \<lparr> signature = None, body = Some (JObj []) \<rparr> (start 0) =
     (\<lparr> status = 202, payload = SignatureMismatch \<rparr>, (start 0)\<lparr> console := [SignatureWarning] \<rparr>)"
proof -
  let ?req = "\<lparr> signature = None, body = Some (JObj []) \<rparr>"
  have c: "calc ''s3cret'' ?req = Inr (''sha256='' @ hmac_hex ''s3cret'' ''{}'')"
    by (simp add: calc_def JSON_stringify_def)
  have h: "signatureHeader ?req \<noteq> ''sha256='' @ hmac_hex ''s3cret'' ''{}''"
    by (simp add: signatureHeader_def)
  have a: "ascii (signatureHeader ?req)"
    by (simp add: signatureHeader_def ascii_def)
  from signature_mismatch_rejected[of "''s3cret''" ?req _ "start 0", OF _ c h] a c show ?thesis
    by (simp add: start_def)
qed

text \<open>
  C4 as the specification words it, for any byte of the body, fails on a body mutated
  in one byte: the two bodies \<open>body_lower\<close> and \<open>body_upper\<close> parse to the same
  value, whose minified text is \<open>body_lower\<close>, so that the digest over the exact bytes
  of \<open>body_lower\<close> is accepted for the request that carries \<open>body_upper\<close>.
\<close>

theorem mutated_body_accepted:
  "express_json (utf8 body_lower) = Some (JObj [(''a'', JStr [CHR 0x1F])]) \<and>
   express_json (utf8 body_upper) = Some (JObj [(''a'', JStr [CHR 0x1F])]) \<and>
   body_upper = body_lower[11 := CHR ''F''] \<and> body_upper \<noteq> body_lower \<and>
   notion_webhook (Some ''s3cret'')
     \<lparr> signature = Some (''sha256='' @ hmac_hex ''s3cret'' body_lower),
       body = Some (JObj [(''a'', JStr [CHR 0x1F])]) \<rparr> (start 0) =
   (\<lparr> status = 200, payload = Ok \<rparr>, scheduleReload (start 0))"
proof -
  let ?b = "JObj [(''a'', JStr [CHR 0x1F])]"
  have s: "stringify ?b = body_lower"
    by (simp add: body_lower_def quote_def escape_char_def hexdigit_def)
  let ?req = "\<lparr> signature = Some (''sha256='' @ hmac_hex ''s3cret'' body_lower), body = Some ?b \<rparr>"
  have e: "expected ''s3cret'' ?b = ''sha256='' @ hmac_hex ''s3cret'' body_lower"
    unfolding expected_def s ..
  have "signatureHeader ?req = expected ''s3cret'' ?b"
    unfolding e by (simp add: signatureHeader_def)
  then have "trusted ''s3cret'' ?req = Inr True"
    by (intro trusted_match) simp_all
  then have w: "notion_webhook (Some ''s3cret'') ?req (start 0) =
      (\<lparr> status = 200, payload = Ok \<rparr>, scheduleReload (start 0))"
    by (simp add: webhook_secret accept_def)
  have l: "express_json (utf8 body_lower) = Some ?b"
    by (simp add: body_lower_def parse_simps)
  have u: "express_json (utf8 body_upper) = Some ?b"
    by (simp add: body_upper_def parse_simps)
  have m: "body_upper = body_lower[11 := CHR ''F''] \<and> body_upper \<noteq> body_lower"
    by (simp add: body_upper_def body_lower_def)
  from l u m w show ?thesis by blast
qed

text \<open>
  C5. Without a secret and without a verification token in the body, the request is
  accepted: the response is 200 \<^verbatim>\<open>{ok: true}\<close> and a reload is scheduled. Nothing is
  printed on the console.
\<close>

theorem permissive_mode_accepts:
  assumes "\<not> secret_set secret" and "\<not> truthy (opt_prop (body req) ''verification_token'')"
  shows "notion_webhook secret req s = (\<lparr> status = 200, payload = Ok \<rparr>, scheduleReload s) \<and>
         console (scheduleReload s) = console s"
  using assms
  by (cases secret)
     (simp_all add: notion_webhook_def secret_set_def accept_def scheduleReload_def
       setTimeout_def clearTimeout_def)

theorem permissive_mode_accepts_witness:
  "notion_webhook None \<lparr> signature = None, body = Some (JObj [(''type'', JStr ''page.updated'')]) \<rparr>
     (start 0) =
   (\<lparr> status = 200, payload = Ok \<rparr>, scheduleReload (start 0))"
  using permissive_mode_accepts[of None
      "\<lparr> signature = None, body = Some (JObj [(''type'', JStr ''page.updated'')]) \<rparr>" "start 0"]
  by (simp add: secret_set_def)

theorem permissive_mode_prints_nothing:
  "console (snd (notion_webhook None \<lparr> signature = None, body = Some (JObj []) \<rparr> (start 0))) = []"
  by (simp add: notion_webhook_def secret_set_def accept_def scheduleReload_def
      setTimeout_def clearTimeout_def start_def)

text \<open>
  C10. With the secret \<^verbatim>\<open>s3cret\<close> configured, a body that carries a verification token
  and a signature header of 71 characters, the last of which is not ASCII: the header
  has the length of the expected digest and more bytes than it, \<^verbatim>\<open>timingSafeEqual\<close>
  throws, and the response is 500 \<^verbatim>\<open>{ok: false}\<close>, not 202.
\<close>

theorem token_with_secret_throws:
  "notion_webhook (Some ''s3cret'')
     \<lparr> signature = Some (replicate 70 (CHR ''a'') @ [CHR 0xE9]),
       body = Some (JObj [(''verification_token'', JStr ''tok'')]) \<rparr> (start 0) =
   (\<lparr> status = 500, payload = NotOk \<rparr>, (start 0)\<lparr> console := [ErrorLogged RangeError] \<rparr>)"
proof -
  let ?req = "\<lparr> signature = Some (replicate 70 (CHR ''a'') @ [CHR 0xE9]),
      body = Some (JObj [(''verification_token'', JStr ''tok'')]) \<rparr>"
  have "trusted ''s3cret'' ?req = Inl RangeError"
    by (rule trusted_throws[where b = "JObj [(''verification_token'', JStr ''tok'')]"])
       (simp_all add: signatureHeader_def ascii_def)
  then show ?thesis
    by (simp add: webhook_secret start_def)
qed

end
